theory Spec2Isabelle
  imports Complex_Main "HOL-Library.Sublist"
begin

section \<open>The HLA database setup script: data model\<close>

text \<open>
  The script \<^verbatim>\<open>setup_hla_database.py\<close> has three functions: \<^verbatim>\<open>get_cache_dir\<close>,
  \<^verbatim>\<open>download_hla_fasta\<close> and \<^verbatim>\<open>load_hla_path\<close>. Each reads or changes the
  interpreter's surroundings (platform, home directory, filesystem, network, console),
  so each is embedded as a function on an explicit \<open>world\<close> record that returns its
  result together with the new world.
\<close>

subsection \<open>Paths\<close>

text \<open>
  A \<^verbatim>\<open>pathlib.Path\<close> is the list of its name components below the root; the empty
  list is the root itself. \<^verbatim>\<open>p / "name"\<close> appends one component. The string form
  joins the components with the separator, written \<open>/\<close> on every platform, and
  \<^verbatim>\<open>Path(s)\<close> splits at the separator, dropping empty and \<open>.\<close> components as
  pathlib does. All paths are read from the root.
\<close>

type_synonym path = "string list"

definition joinpath :: "path \<Rightarrow> string \<Rightarrow> path" where
  "joinpath p name = p @ [name]"

definition parent :: "path \<Rightarrow> path" where
  "parent p = butlast p"

definition str_path :: "path \<Rightarrow> string" where
  "str_path p = (if p = [] then ''/'' else concat (map (\<lambda>c. CHR ''/'' # c) p))"

definition keeps :: "string \<Rightarrow> bool" where
  "keeps c = (c \<noteq> [] \<and> c \<noteq> ''.'')"

fun parts_of :: "string \<Rightarrow> string \<Rightarrow> path" where
  "parts_of cur [] = (if keeps cur then [cur] else [])"
| "parts_of cur (x # xs) =
     (if x = CHR ''/''
      then (if keeps cur then cur # parts_of [] xs else parts_of [] xs)
      else parts_of (cur @ [x]) xs)"

definition Path :: "string \<Rightarrow> path" where
  "Path s = parts_of [] s"

text \<open>The components a \<^verbatim>\<open>Path\<close> object can hold: non-empty names other than
  \<open>.\<close>, free of the separator.\<close>

definition wf_name :: "string \<Rightarrow> bool" where
  "wf_name c = (keeps c \<and> CHR ''/'' \<notin> set c)"

definition wf_path :: "path \<Rightarrow> bool" where
  "wf_path p = list_all wf_name p"

subsection \<open>Filesystem, JSON values, exceptions\<close>

text \<open>A file holds bytes; a directory holds nothing of its own.\<close>

datatype node = Dir | File string

type_synonym fsys = "path \<rightharpoonup> node"

datatype json =
    JNull
  | JBool bool
  | JNum rat
  | JStr string
  | JArr "json list"
  | JObj "(string \<times> json) list"

text \<open>
  The subclasses of \<^verbatim>\<open>requests.exceptions.RequestException\<close> that
  \<^verbatim>\<open>requests.get\<close>, \<^verbatim>\<open>raise_for_status\<close> and \<^verbatim>\<open>iter_content\<close> raise, and the
  other exception classes the script can meet. The script tells apart only
  \<^verbatim>\<open>RequestException\<close> (line 78) and \<^verbatim>\<open>Exception\<close> (line 97).
\<close>

datatype req_error =
    ConnectionError
  | Timeout
  | HTTPError nat
  | ChunkedEncodingError

datatype exn =
    RequestException req_error
  | OSError
  | ValueError
  | JSONDecodeError
  | KeyError string
  | TypeError
  | RuntimeError
  | UnicodeEncodeError

datatype 'a outcome = Returned 'a | SysExit int | Raised exn

subsection \<open>The network\<close>

text \<open>
  A header value is kept by what \<^verbatim>\<open>int()\<close> makes of it: \<open>IntText n\<close> is a text
  that \<^verbatim>\<open>int()\<close> reads as \<open>n\<close>, \<open>OtherText s\<close> one it rejects with
  \<^verbatim>\<open>ValueError\<close>. A response carries its status, its \<^verbatim>\<open>content-length\<close> header
  when there is one, the chunks \<^verbatim>\<open>iter_content\<close> yields in order, and the error
  \<^verbatim>\<open>iter_content\<close> raises after the last of them, if any.
\<close>

datatype header_value = IntText int | OtherText string

record response =
  status_code :: nat
  content_length :: "header_value option"
  chunks :: "string list"
  stream_error :: "req_error option"

datatype get_result = GetRaises req_error | GetReturns response

subsection \<open>The console\<close>

text \<open>One constructor for each \<^verbatim>\<open>print\<close> call of \<^verbatim>\<open>download_hla_fasta\<close> and
  \<^verbatim>\<open>load_hla_path\<close>, holding the values the f-string formats (numbers before
  rounding to one decimal). The empty \<^verbatim>\<open>print()\<close> of line 61 is \<open>NewLine\<close>.\<close>

datatype msg =
    AlreadyCached path
  | FileSize rat
  | Downloading
  | ShowURL string
  | Destination path
  | Progress rat rat rat
  | NewLine
  | DownloadComplete rat
  | ConfigSaved path
  | DownloadFailed exn
  | NotSetUp
  | ErrorLoading exn

subsection \<open>The world\<close>

text \<open>
  \<open>sys_platform\<close> is \<^verbatim>\<open>sys.platform\<close>, \<open>home\<close> is \<^verbatim>\<open>Path.home()\<close> and
  \<open>environ\<close> is \<^verbatim>\<open>os.environ\<close>. \<open>net\<close> is what the server answers to a GET of a
  URL, and \<open>requests_log\<close> records every request sent. \<open>json_dump\<close> and
  \<open>json_load\<close> are the \<^verbatim>\<open>json\<close> module: the text
  \<^verbatim>\<open>json.dump(v, f, indent=n)\<close> writes, and what \<^verbatim>\<open>json.load\<close> makes of a
  file's bytes. \<open>disk_free\<close> is the number of bytes the filesystem still takes: a
  write of more raises \<^verbatim>\<open>OSError\<close>, and removing or truncating a file gives its bytes
  back; directories take no room. \<open>dir_st_size\<close> is the size \<^verbatim>\<open>stat\<close> reports for a
  directory. In a world files have no permissions, the home directory is known and
  printing works; what \<^verbatim>\<open>load_hla_path\<close> meets when they do not is kept apart, in
  \<open>faults\<close> below.
\<close>

record world =
  sys_platform :: string
  home :: path
  environ :: "string \<rightharpoonup> string"
  fs :: fsys
  disk_free :: nat
  dir_st_size :: nat
  net :: "string \<Rightarrow> get_result"
  requests_log :: "string list"
  console :: "msg list"
  json_dump :: "json \<Rightarrow> nat \<Rightarrow> string"
  json_load :: "string \<Rightarrow> exn + json"

definition print :: "msg \<Rightarrow> world \<Rightarrow> world" where
  "print m w = w\<lparr>console := console w @ [m]\<rparr>"

text \<open>
  The failures of the machine that \<^verbatim>\<open>load_hla_path\<close> can meet outside its \<^verbatim>\<open>try\<close>
  block or inside its handler. \<open>home_error\<close> is the exception \<^verbatim>\<open>Path.home()\<close> raises
  (\<^verbatim>\<open>RuntimeError\<close> when no home directory can be determined). \<open>stat_error p\<close> is the
  error of \<^verbatim>\<open>os.stat\<close> on \<open>p\<close> when it is not one that says the file is missing
  (a directory on the way that may not be searched, a name that is too long):
  \<^verbatim>\<open>Path.exists\<close> raises it again. \<open>open_error p\<close> is the error of opening \<open>p\<close> for
  reading (a file that may not be read). \<open>print_error m\<close> is the exception printing the
  line \<open>m\<close> raises (\<^verbatim>\<open>UnicodeEncodeError\<close> when the stream cannot encode a character
  of the line); a line that fails leaves the console as it was.
\<close>

record faults =
  home_error :: "exn option"
  stat_error :: "path \<Rightarrow> exn option"
  open_error :: "path \<Rightarrow> exn option"
  print_error :: "msg \<Rightarrow> exn option"

definition no_faults :: faults where
  "no_faults =
     \<lparr>home_error = None, stat_error = (\<lambda>p. None), open_error = (\<lambda>p. None),
      print_error = (\<lambda>m. None)\<rparr>"

section \<open>Library operations the script calls\<close>

definition node_at :: "fsys \<Rightarrow> path \<Rightarrow> node option" where
  "node_at t p = (if p = [] then Some Dir else t p)"

definition path_exists :: "world \<Rightarrow> path \<Rightarrow> bool" where
  "path_exists w p = (node_at (fs w) p \<noteq> None)"

text \<open>
  \<^verbatim>\<open>Path.mkdir(parents=True, exist_ok=True)\<close>: an existing directory is left alone,
  an existing file is an error, a missing parent is made first.
\<close>

function mkdir_parents :: "path \<Rightarrow> fsys \<Rightarrow> exn + fsys" where
  "mkdir_parents p t =
     (case node_at t p of
        Some Dir \<Rightarrow> Inr t
      | Some (File b) \<Rightarrow> Inl OSError
      | None \<Rightarrow>
          (case mkdir_parents (parent p) t of
             Inl e \<Rightarrow> Inl e
           | Inr t' \<Rightarrow> Inr (t'(p \<mapsto> Dir))))"
  by pat_completeness auto
termination
  by (relation "measure (\<lambda>(p, t). length p)")
     (auto simp: node_at_def parent_def split: if_splits)

declare mkdir_parents.simps [simp del]

definition st_size :: "world \<Rightarrow> path \<Rightarrow> exn + nat" where
  "st_size w p =
     (case node_at (fs w) p of
        None \<Rightarrow> Inl OSError
      | Some Dir \<Rightarrow> Inr (dir_st_size w)
      | Some (File b) \<Rightarrow> Inr (length b))"

text \<open>\<^verbatim>\<open>open(p, 'w')\<close> and \<^verbatim>\<open>open(p, 'wb')\<close>: create the file empty, or truncate it.\<close>

definition open_w :: "path \<Rightarrow> world \<Rightarrow> (exn + unit) \<times> world" where
  "open_w p w =
     (case node_at (fs w) p of
        Some Dir \<Rightarrow> (Inl OSError, w)
      | Some (File b) \<Rightarrow>
          (Inr (), w\<lparr>fs := (fs w)(p \<mapsto> File []), disk_free := disk_free w + length b\<rparr>)
      | None \<Rightarrow>
          (if node_at (fs w) (parent p) = Some Dir
           then (Inr (), w\<lparr>fs := (fs w)(p \<mapsto> File [])\<rparr>)
           else (Inl OSError, w)))"

text \<open>\<^verbatim>\<open>f.write(data)\<close> on the file opened at \<open>p\<close>: appends, if the disk takes it.\<close>

definition f_write :: "path \<Rightarrow> string \<Rightarrow> world \<Rightarrow> (exn + unit) \<times> world" where
  "f_write p data w =
     (case node_at (fs w) p of
        Some (File b) \<Rightarrow>
          (if length data \<le> disk_free w
           then (Inr (), w\<lparr>fs := (fs w)(p \<mapsto> File (b @ data)),
                           disk_free := disk_free w - length data\<rparr>)
           else (Inl OSError, w))
      | _ \<Rightarrow> (Inl OSError, w))"

definition unlink :: "path \<Rightarrow> world \<Rightarrow> (exn + unit) \<times> world" where
  "unlink p w =
     (case node_at (fs w) p of
        Some (File b) \<Rightarrow>
          (Inr (), w\<lparr>fs := (fs w)(p := None), disk_free := disk_free w + length b\<rparr>)
      | _ \<Rightarrow> (Inl OSError, w))"

definition read_file :: "path \<Rightarrow> world \<Rightarrow> exn + string" where
  "read_file p w =
     (case node_at (fs w) p of
        Some (File b) \<Rightarrow> Inr b
      | _ \<Rightarrow> Inl OSError)"

text \<open>\<^verbatim>\<open>requests.get(url, timeout=300, stream=True)\<close>.\<close>

definition requests_get :: "string \<Rightarrow> world \<Rightarrow> (exn + response) \<times> world" where
  "requests_get url w =
     (let w' = w\<lparr>requests_log := requests_log w @ [url]\<rparr>
      in case net w url of
           GetRaises e \<Rightarrow> (Inl (RequestException e), w')
         | GetReturns r \<Rightarrow> (Inr r, w'))"

text \<open>\<^verbatim>\<open>Response.raise_for_status\<close> raises \<^verbatim>\<open>HTTPError\<close> for a status from 400
  to 599 and for no other.\<close>

definition raise_for_status :: "response \<Rightarrow> exn + unit" where
  "raise_for_status r =
     (if 400 \<le> status_code r \<and> status_code r < 600
      then Inl (RequestException (HTTPError (status_code r)))
      else Inr ())"

text \<open>\<^verbatim>\<open>int(response.headers.get('content-length', 0))\<close>.\<close>

definition header_int :: "header_value option \<Rightarrow> exn + int" where
  "header_int h =
     (case h of
        None \<Rightarrow> Inr 0
      | Some (IntText n) \<Rightarrow> Inr n
      | Some (OtherText s) \<Rightarrow> Inl ValueError)"

text \<open>\<^verbatim>\<open>config['hla_fasta_path']\<close> on what \<^verbatim>\<open>json.load\<close> returned.\<close>

definition subscript :: "json \<Rightarrow> string \<Rightarrow> exn + json" where
  "subscript v k =
     (case v of
        JObj kvs \<Rightarrow> (case map_of kvs k of None \<Rightarrow> Inl (KeyError k) | Some x \<Rightarrow> Inr x)
      | _ \<Rightarrow> Inl TypeError)"

text \<open>\<^verbatim>\<open>Path.exists()\<close>, \<^verbatim>\<open>open(p, 'r')\<close> with the read of the whole file, and
  \<^verbatim>\<open>print\<close>, on a machine with faults.\<close>

definition exists_or_raise :: "faults \<Rightarrow> world \<Rightarrow> path \<Rightarrow> exn + bool" where
  "exists_or_raise \<phi> w p =
     (case stat_error \<phi> p of Some e \<Rightarrow> Inl e | None \<Rightarrow> Inr (path_exists w p))"

definition open_read :: "faults \<Rightarrow> path \<Rightarrow> world \<Rightarrow> exn + string" where
  "open_read \<phi> p w = (case open_error \<phi> p of Some e \<Rightarrow> Inl e | None \<Rightarrow> read_file p w)"

definition print_or_raise :: "faults \<Rightarrow> msg \<Rightarrow> world \<Rightarrow> (exn + unit) \<times> world" where
  "print_or_raise \<phi> m w =
     (case print_error \<phi> m of Some e \<Rightarrow> (Inl e, w) | None \<Rightarrow> (Inr (), print m w))"

section \<open>The script's functions\<close>

subsection \<open>\<^verbatim>\<open>get_cache_dir\<close> (lines 15 to 22)\<close>

definition get_cache_dir :: "world \<Rightarrow> path \<times> world" where
  "get_cache_dir w =
     (let cache_base =
        (if sys_platform w = ''win32''
         then joinpath (joinpath (joinpath (home w) ''AppData'') ''Local'') ''hai_def_cache''
         else joinpath (joinpath (home w) ''.cache'') ''hai_def'')
      in (cache_base, w))"

subsection \<open>\<^verbatim>\<open>download_hla_fasta\<close> (lines 24 to 82)\<close>

text \<open>The \<^verbatim>\<open>for chunk in response.iter_content(...)\<close> loop, lines 50 to 58, over the
  chunks the response yields; \<open>downloaded\<close> is the loop's counter.\<close>

fun write_chunks :: "path \<Rightarrow> int \<Rightarrow> nat \<Rightarrow> string list \<Rightarrow> world \<Rightarrow> (exn + nat) \<times> world" where
  "write_chunks f total_size downloaded [] w = (Inr downloaded, w)"
| "write_chunks f total_size downloaded (chunk # rest) w =
     (if chunk \<noteq> [] then
        (case f_write f chunk w of
           (Inl e, w1) \<Rightarrow> (Inl e, w1)
         | (Inr u, w1) \<Rightarrow>
             (let downloaded' = downloaded + length chunk;
                  w2 = (if total_size > 0
                        then print (Progress (of_nat downloaded' / of_int total_size * 100)
                                             (of_nat downloaded' / 1048576)
                                             (of_int total_size / 1048576)) w1
                        else w1)
              in write_chunks f total_size downloaded' rest w2))
      else write_chunks f total_size downloaded rest w)"

text \<open>The \<^verbatim>\<open>with open(fasta_file, 'wb')\<close> block, lines 49 to 58: the loop, then the
  error \<^verbatim>\<open>iter_content\<close> raises when the stream breaks.\<close>

definition stream_to_file :: "path \<Rightarrow> int \<Rightarrow> response \<Rightarrow> world \<Rightarrow> (exn + nat) \<times> world" where
  "stream_to_file fasta_file total_size r w =
     (case open_w fasta_file w of
        (Inl e, w1) \<Rightarrow> (Inl e, w1)
      | (Inr u, w1) \<Rightarrow>
          (case write_chunks fasta_file total_size 0 (chunks r) w1 of
             (Inl e, w2) \<Rightarrow> (Inl e, w2)
           | (Inr downloaded, w2) \<Rightarrow>
               (case stream_error r of
                  Some e \<Rightarrow> (Inl (RequestException e), w2)
                | None \<Rightarrow> (Inr downloaded, w2))))"

text \<open>The \<^verbatim>\<open>config\<close> dictionary of lines 67 to 71.\<close>

definition config_record :: "path \<Rightarrow> string \<Rightarrow> rat \<Rightarrow> json" where
  "config_record fasta_file url file_size_mb =
     JObj [(''hla_fasta_path'', JStr (str_path fasta_file)),
           (''download_url'', JStr url),
           (''file_size_mb'', JNum file_size_mb)]"

text \<open>Lines 60 to 76: the size, the config record, the return value.\<close>

definition save_config :: "path \<Rightarrow> path \<Rightarrow> string \<Rightarrow> int \<Rightarrow> world \<Rightarrow> (exn + path) \<times> world" where
  "save_config fasta_file config_file url total_size w =
     (let w1 = (if total_size > 0 then print NewLine w else w)
      in case st_size w1 fasta_file of
           Inl e \<Rightarrow> (Inl e, w1)
         | Inr sz \<Rightarrow>
             (let file_size_mb = of_nat sz / 1048576;
                  w2 = print (DownloadComplete file_size_mb) w1;
                  config = config_record fasta_file url file_size_mb
              in case open_w config_file w2 of
                   (Inl e, w3) \<Rightarrow> (Inl e, w3)
                 | (Inr u, w3) \<Rightarrow>
                     (case f_write config_file (json_dump w3 config 2) w3 of
                        (Inl e, w4) \<Rightarrow> (Inl e, w4)
                      | (Inr u', w4) \<Rightarrow> (Inr fasta_file, print (ConfigSaved config_file) w4))))"

text \<open>The body of the \<^verbatim>\<open>try\<close>, lines 42 to 76.\<close>

definition download_try :: "path \<Rightarrow> path \<Rightarrow> string \<Rightarrow> world \<Rightarrow> (exn + path) \<times> world" where
  "download_try fasta_file config_file url w =
     (case requests_get url w of
        (Inl e, w1) \<Rightarrow> (Inl e, w1)
      | (Inr r, w1) \<Rightarrow>
          (case raise_for_status r of
             Inl e \<Rightarrow> (Inl e, w1)
           | Inr u \<Rightarrow>
               (case header_int (content_length r) of
                  Inl e \<Rightarrow> (Inl e, w1)
                | Inr total_size \<Rightarrow>
                    (case stream_to_file fasta_file total_size r w1 of
                       (Inl e, w2) \<Rightarrow> (Inl e, w2)
                     | (Inr downloaded, w2) \<Rightarrow>
                         save_config fasta_file config_file url total_size w2))))"

text \<open>The \<^verbatim>\<open>except requests.exceptions.RequestException\<close> clause, lines 78 to 82. Any
  other exception leaves the function as it is.\<close>

definition handle_failure :: "path \<Rightarrow> exn \<Rightarrow> world \<Rightarrow> path outcome \<times> world" where
  "handle_failure fasta_file e w =
     (case e of
        RequestException r \<Rightarrow>
          (let w1 = print (DownloadFailed e) w
           in if path_exists w1 fasta_file
              then (case unlink fasta_file w1 of
                      (Inl e', w2) \<Rightarrow> (Raised e', w2)
                    | (Inr u, w2) \<Rightarrow> (SysExit 1, w2))
              else (SysExit 1, w1))
      | _ \<Rightarrow> (Raised e, w))"

definition download_hla_fasta :: "path \<Rightarrow> string \<Rightarrow> world \<Rightarrow> path outcome \<times> world" where
  "download_hla_fasta cache_dir url w =
     (case mkdir_parents cache_dir (fs w) of
        Inl e \<Rightarrow> (Raised e, w)
      | Inr t \<Rightarrow>
          (let w1 = w\<lparr>fs := t\<rparr>;
               fasta_file = joinpath cache_dir ''hla_prot.fasta'';
               config_file = joinpath cache_dir ''config.json''
           in if path_exists w1 fasta_file then
                (let w2 = print (AlreadyCached fasta_file) w1
                 in case st_size w2 fasta_file of
                      Inl e \<Rightarrow> (Raised e, w2)
                    | Inr sz \<Rightarrow> (Returned fasta_file, print (FileSize (of_nat sz / 1048576)) w2))
              else
                (let w2 = print (Destination fasta_file) (print (ShowURL url) (print Downloading w1))
                 in case download_try fasta_file config_file url w2 of
                      (Inr p, w3) \<Rightarrow> (Returned p, w3)
                    | (Inl e, w3) \<Rightarrow> handle_failure fasta_file e w3)))"

text \<open>The default of the \<^verbatim>\<open>url\<close> parameter, line 24.\<close>

definition default_url :: string where
  "default_url = ''https://ftp.ebi.ac.uk/pub/databases/ipd/imgt/hla/hla_prot.fasta''"

subsection \<open>\<^verbatim>\<open>load_hla_path\<close> (lines 84 to 99)\<close>

text \<open>The body of the \<^verbatim>\<open>try\<close>, lines 94 to 96. \<^verbatim>\<open>Path(v)\<close> raises \<^verbatim>\<open>TypeError\<close>
  unless \<open>v\<close> is a string.\<close>

definition load_try :: "faults \<Rightarrow> path \<Rightarrow> world \<Rightarrow> exn + path" where
  "load_try \<phi> config_file w =
     (case open_read \<phi> config_file w of
        Inl e \<Rightarrow> Inl e
      | Inr text \<Rightarrow>
          (case json_load w text of
             Inl e \<Rightarrow> Inl e
           | Inr config \<Rightarrow>
               (case subscript config ''hla_fasta_path'' of
                  Inl e \<Rightarrow> Inl e
                | Inr v \<Rightarrow> (case v of JStr s \<Rightarrow> Inr (Path s) | _ \<Rightarrow> Inl TypeError))))"

text \<open>
  The function. Line 86 calls \<^verbatim>\<open>get_cache_dir\<close>, whose \<^verbatim>\<open>Path.home()\<close> raises
  \<open>home_error\<close> when there is one, before anything else is done; line 89 is outside the \<^verbatim>\<open>try\<close>, and so is the \<^verbatim>\<open>print\<close> of line 90; the
  \<^verbatim>\<open>print\<close> of line 98 is inside the handler, so what it raises is not caught either.
\<close>

definition load_hla_path :: "faults \<Rightarrow> world \<Rightarrow> path option outcome \<times> world" where
  "load_hla_path \<phi> w =
     (case home_error \<phi> of
        Some e \<Rightarrow> (Raised e, w)
      | None \<Rightarrow>
          (case get_cache_dir w of
             (cache_dir, w1) \<Rightarrow>
               (let config_file = joinpath cache_dir ''config.json''
                in case exists_or_raise \<phi> w1 config_file of
                     Inl e \<Rightarrow> (Raised e, w1)
                   | Inr found \<Rightarrow>
                       if \<not> found
                       then (case print_or_raise \<phi> NotSetUp w1 of
                               (Inl e, w2) \<Rightarrow> (Raised e, w2)
                             | (Inr u, w2) \<Rightarrow> (Returned None, w2))
                       else (case load_try \<phi> config_file w1 of
                               Inr p \<Rightarrow> (Returned (Some p), w1)
                             | Inl e \<Rightarrow>
                                 (case print_or_raise \<phi> (ErrorLoading e) w1 of
                                    (Inl e', w2) \<Rightarrow> (Raised e', w2)
                                  | (Inr u, w2) \<Rightarrow> (Returned None, w2))))))"

section \<open>Notions the properties are stated with\<close>

text \<open>The values the loop counter \<open>downloaded\<close> takes, one after each non-empty chunk.\<close>

fun counts :: "nat \<Rightarrow> string list \<Rightarrow> nat list" where
  "counts d [] = []"
| "counts d (c # cs) =
     (if c \<noteq> [] then (d + length c) # counts (d + length c) cs else counts d cs)"

text \<open>The progress lines for given counter values.\<close>

definition progress_of :: "int \<Rightarrow> nat list \<Rightarrow> msg list" where
  "progress_of total_size ns =
     (if total_size > 0
      then map (\<lambda>n. Progress (of_nat n / of_int total_size * 100) (of_nat n / 1048576)
                              (of_int total_size / 1048576)) ns
      else [])"

text \<open>Two worlds with the same platform, home, environment and libraries.\<close>

definition same_env :: "world \<Rightarrow> world \<Rightarrow> bool" where
  "same_env w w' \<longleftrightarrow>
     sys_platform w' = sys_platform w \<and> home w' = home w \<and> environ w' = environ w \<and>
     dir_st_size w' = dir_st_size w \<and> net w' = net w \<and>
     json_dump w' = json_dump w \<and> json_load w' = json_load w"

text \<open>
  The cache root as the specification words it: \<^verbatim>\<open>%LOCALAPPDATA%\hai_def_cache\<close> on
  Windows, \<^verbatim>\<open>~/.cache/hai_def\<close> elsewhere. It is undefined where the variable is unset.
\<close>

definition spec_cache_dir :: "world \<Rightarrow> path option" where
  "spec_cache_dir w =
     (if sys_platform w = ''win32''
      then map_option (\<lambda>s. joinpath (Path s) ''hai_def_cache'') (environ w ''LOCALAPPDATA'')
      else Some (joinpath (joinpath (home w) ''.cache'') ''hai_def''))"







subsection \<open>Concrete worlds\<close>

text \<open>
  A Linux machine with an empty disk of 1000 bytes and a server that answers every
  request with four bytes in two chunks. Its \<^verbatim>\<open>json\<close> module is cut down to the one
  record the script writes there.
\<close>

definition test_url :: string where
  "test_url = ''https://example.org/hla_prot.fasta''"

definition test_record :: json where
  "test_record =
     JObj [(''hla_fasta_path'', JStr ''/home/u/.cache/hai_def/hla_prot.fasta''),
           (''download_url'', JStr test_url),
           (''file_size_mb'', JNum (4 / 1048576))]"

definition stub_dump :: "json \<Rightarrow> nat \<Rightarrow> string" where
  "stub_dump v n =
     (case v of
        JObj kvs \<Rightarrow>
          concat (map (\<lambda>(k, x). k @ ''='' @ (case x of JStr s \<Rightarrow> s | _ \<Rightarrow> ''#'') @ '';'') kvs)
      | _ \<Rightarrow> ''null'')"

definition stub_load :: "string \<Rightarrow> exn + json" where
  "stub_load s = (if s = stub_dump test_record 2 then Inr test_record else Inl JSONDecodeError)"

definition test_response :: response where
  "test_response =
     \<lparr>status_code = 200, content_length = Some (IntText 4),
      chunks = [''>A'', ''CG''], stream_error = None\<rparr>"

definition linux_world :: world where
  "linux_world =
     \<lparr>sys_platform = ''linux'', home = [''home'', ''u''], environ = Map.empty,
      fs = Map.empty, disk_free = 1000, dir_st_size = 4096,
      net = (\<lambda>url. GetReturns test_response),
      requests_log = [], console = [],
      json_dump = stub_dump, json_load = stub_load\<rparr>"

text \<open>The same machine with the cache directory made and the database in it, but no
  config file.\<close>

definition test_cache :: path where
  "test_cache = [''home'', ''u'', ''.cache'', ''hai_def'']"


text \<open>The filesystem after \<^verbatim>\<open>mkdir\<close> on the empty disk, and the world a download
  leaves there.\<close>

definition test_dirs :: fsys where
  "test_dirs = [[''home''] \<mapsto> Dir, [''home'', ''u''] \<mapsto> Dir,
                [''home'', ''u'', ''.cache''] \<mapsto> Dir, test_cache \<mapsto> Dir]"

definition downloaded_world :: world where
  "downloaded_world =
     linux_world\<lparr>
       fs := test_dirs(joinpath test_cache ''hla_prot.fasta'' \<mapsto> File ''>ACG'',
                       joinpath test_cache ''config.json'' \<mapsto> File (stub_dump test_record 2)),
       disk_free := 880,
       requests_log := [test_url],
       console := [Downloading, ShowURL test_url,
                   Destination (joinpath test_cache ''hla_prot.fasta''),
                   Progress 50 (2 / 1048576) (4 / 1048576),
                   Progress 100 (4 / 1048576) (4 / 1048576),
                   NewLine, DownloadComplete (4 / 1048576),
                   ConfigSaved (joinpath test_cache ''config.json'')]\<rparr>"




definition full_disk_world :: world where
  "full_disk_world = linux_world\<lparr>disk_free := 3\<rparr>"

definition garbled_world :: world where
  "garbled_world =
     downloaded_world\<lparr>fs := (fs downloaded_world)
        (joinpath test_cache ''config.json'' \<mapsto> File ''{'')\<rparr>"

definition nokey_world :: world where
  "nokey_world =
     downloaded_world\<lparr>json_load := (\<lambda>s. Inr (JObj [(''download_url'', JStr test_url)]))\<rparr>"

text \<open>A config file that holds a JSON list, and one whose path is a number.\<close>

definition list_world :: world where
  "list_world = downloaded_world\<lparr>json_load := (\<lambda>s. Inr (JArr [JStr ''hla_fasta_path'']))\<rparr>"

definition number_world :: world where
  "number_world =
     downloaded_world\<lparr>json_load := (\<lambda>s. Inr (JObj [(''hla_fasta_path'', JNum 5)]))\<rparr>"

text \<open>Faults: an output stream that cannot encode the cross mark the loader's two lines
  begin with (a pipe or file under \<^verbatim>\<open>cp1252\<close> or \<^verbatim>\<open>ascii\<close>), and a cache directory
  that may not be searched.\<close>

definition ascii_stdout :: faults where
  "ascii_stdout = no_faults\<lparr>print_error := (\<lambda>m. Some UnicodeEncodeError)\<rparr>"

definition locked_cache :: faults where
  "locked_cache =
     no_faults\<lparr>stat_error := (\<lambda>p. if prefix test_cache p \<and> p \<noteq> test_cache
                                  then Some OSError else None)\<rparr>"

text \<open>A Windows machine with its local application data in the usual place, and one
  where it was moved to another drive.\<close>

definition usual_windows_world :: world where
  "usual_windows_world =
     linux_world\<lparr>sys_platform := ''win32'', home := [''C:'', ''Users'', ''u''],
                 environ := [''LOCALAPPDATA'' \<mapsto> ''/C:/Users/u/AppData/Local'']\<rparr>"

definition windows_world :: world where
  "windows_world =
     linux_world\<lparr>sys_platform := ''win32'', home := [''C:'', ''Users'', ''u''],
                 environ := [''LOCALAPPDATA'' \<mapsto> ''/D:/Profiles/u'']\<rparr>"

section \<open>Facts about the library operations\<close>

subsection \<open>\<^verbatim>\<open>Path(str(p))\<close> is \<open>p\<close>\<close>

lemma parts_of_name:
  "CHR ''/'' \<notin> set c \<Longrightarrow> parts_of cur (c @ rest) = parts_of (cur @ c) rest"
  by (induction c arbitrary: cur) auto

lemma parts_of_flush:
  "keeps c \<Longrightarrow> parts_of c (concat (map (\<lambda>c. CHR ''/'' # c) cs))
     = c # parts_of [] (concat (map (\<lambda>c. CHR ''/'' # c) cs))"
  by (cases cs) (auto simp: keeps_def)

lemma parts_of_join:
  "wf_path p \<Longrightarrow> parts_of [] (concat (map (\<lambda>c. CHR ''/'' # c) p)) = p"
proof (induction p)
  case Nil
  then show ?case by (simp add: keeps_def)
next
  case (Cons c cs)
  then have c: "keeps c" "CHR ''/'' \<notin> set c" and cs: "wf_path cs"
    by (auto simp: wf_path_def wf_name_def)
  have "parts_of [] (concat (map (\<lambda>c. CHR ''/'' # c) (c # cs)))
      = parts_of [] (c @ concat (map (\<lambda>c. CHR ''/'' # c) cs))"
    by (simp add: keeps_def)
  also have "\<dots> = parts_of c (concat (map (\<lambda>c. CHR ''/'' # c) cs))"
    using parts_of_name [OF c(2), of "[]"] by simp
  also have "\<dots> = c # parts_of [] (concat (map (\<lambda>c. CHR ''/'' # c) cs))"
    by (rule parts_of_flush [OF c(1)])
  finally show ?case using Cons.IH [OF cs] by simp
qed

lemma Path_str_path: "wf_path p \<Longrightarrow> Path (str_path p) = p"
  by (cases "p = []") (auto simp: Path_def str_path_def keeps_def parts_of_join)

subsection \<open>What \<^verbatim>\<open>mkdir\<close> changes\<close>

lemma mkdir_parents_frame:
  "mkdir_parents p t = Inr t' \<Longrightarrow> t' q \<noteq> t q \<Longrightarrow>
     prefix q p \<and> q \<noteq> [] \<and> t q = None \<and> t' q = Some Dir"
proof (induction p t arbitrary: t' rule: mkdir_parents.induct)
  case (1 p t)
  show ?case
  proof (cases "node_at t p")
    case None
    then have pne: "p \<noteq> []" by (auto simp: node_at_def split: if_splits)
    from None 1(2) obtain t1 where
      t1: "mkdir_parents (parent p) t = Inr t1" and t': "t' = t1(p \<mapsto> Dir)"
      by (subst (asm) mkdir_parents.simps) (auto split: sum.splits)
    show ?thesis
    proof (cases "q = p")
      case True
      with None pne t' show ?thesis by (auto simp: node_at_def)
    next
      case False
      with t' 1(3) have "t1 q \<noteq> t q" by auto
      from 1(1) [OF None t1 this]
      have "prefix q (parent p)" and r: "q \<noteq> [] \<and> t q = None \<and> t1 q = Some Dir"
        by auto
      then have "prefix q p" using pne
        by (metis parent_def prefix_order.trans prefixeq_butlast)
      with r False t' show ?thesis by auto
    qed
  next
    case (Some n)
    with 1(2,3) show ?thesis
      by (subst (asm) mkdir_parents.simps) (auto split: node.splits)
  qed
qed


lemma mkdir_parents_child:
  assumes "mkdir_parents p t = Inr t'"
  shows "t' (joinpath p c) = t (joinpath p c)"
proof (rule ccontr)
  assume "t' (joinpath p c) \<noteq> t (joinpath p c)"
  from mkdir_parents_frame [OF assms this] have "prefix (p @ [c]) p"
    by (simp add: joinpath_def)
  then show False by (auto simp: prefix_def)
qed


subsection \<open>Worlds with the same environment\<close>

lemma same_env_refl [simp]: "same_env w w"
  by (simp add: same_env_def)

lemma same_env_trans: "same_env w w1 \<Longrightarrow> same_env w1 w2 \<Longrightarrow> same_env w w2"
  by (simp add: same_env_def)

lemma same_env_print [simp]: "same_env w (print m w1) = same_env w w1"
  by (simp add: same_env_def print_def)

subsection \<open>Opening and writing files\<close>

lemma f_write_Inr:
  "f_write p d w = (Inr u, w') \<Longrightarrow>
     \<exists>b. fs w p = Some (File b) \<and> length d \<le> disk_free w \<and>
         w' = w\<lparr>fs := (fs w)(p \<mapsto> File (b @ d)), disk_free := disk_free w - length d\<rparr>"
  by (auto simp: f_write_def node_at_def split: option.splits node.splits if_splits)

lemma f_write_Inl:
  "f_write p d w = (Inl e, w') \<Longrightarrow> w' = w \<and> e = OSError"
  by (auto simp: f_write_def node_at_def split: option.splits node.splits if_splits)


lemma open_w_Inr:
  "open_w p w = (Inr u, w') \<Longrightarrow>
     fs w' = (fs w)(p \<mapsto> File []) \<and> disk_free w \<le> disk_free w' \<and>
     (fs w p = None \<longrightarrow> disk_free w' = disk_free w) \<and>
     console w' = console w \<and> requests_log w' = requests_log w \<and> same_env w w'"
  by (auto simp: open_w_def node_at_def same_env_def
           split: option.splits node.splits if_splits)

lemma open_w_Inl:
  "open_w p w = (Inl e, w') \<Longrightarrow> w' = w \<and> e = OSError"
  by (auto simp: open_w_def node_at_def split: option.splits node.splits if_splits)


lemma write_chunks_Inr_aux:
  "write_chunks f total_size d cs w = (Inr n, w') \<Longrightarrow> fs w f = Some (File b) \<Longrightarrow>
     n = d + length (concat cs) \<and> length (concat cs) \<le> disk_free w \<and>
     (\<forall>q. fs w' q = (if q = f then Some (File (b @ concat cs)) else fs w q)) \<and>
     disk_free w' = disk_free w - length (concat cs) \<and>
     console w' = console w @ progress_of total_size (counts d cs) \<and>
     requests_log w' = requests_log w \<and> same_env w w'"
proof (induction cs arbitrary: d w b)
  case Nil
  then show ?case by (simp add: progress_of_def)
next
  case (Cons c cs)
  show ?case
  proof (cases "c = []")
    case True
    with Cons show ?thesis by simp
  next
    case False
    with Cons.prems(1) obtain u w1 where
      fw: "f_write f c w = (Inr u, w1)"
      by (auto split: prod.splits sum.splits)
    from f_write_Inr [OF fw] Cons.prems(2) have
      w1: "w1 = w\<lparr>fs := (fs w)(f \<mapsto> File (b @ c)), disk_free := disk_free w - length c\<rparr>"
      and le: "length c \<le> disk_free w" by auto
    define w2 where "w2 = (if total_size > 0
        then print (Progress (of_nat (d + length c) / of_int total_size * 100)
                             (of_nat (d + length c) / 1048576) (of_int total_size / 1048576)) w1
        else w1)"
    have rec: "write_chunks f total_size (d + length c) cs w2 = (Inr n, w')"
      using Cons.prems(1) False fw by (simp add: w2_def Let_def)
    have w2: "\<forall>q. fs w2 q = (if q = f then Some (File (b @ c)) else fs w q)"
      "disk_free w2 = disk_free w - length c"
      "console w2 = console w @ progress_of total_size [d + length c]"
      "requests_log w2 = requests_log w" "same_env w w2"
      by (simp_all add: w2_def w1 print_def progress_of_def same_env_def)
    then have f2: "fs w2 f = Some (File (b @ c))"
      by simp
    from Cons.IH [OF rec f2] have ih:
      "n = d + length c + length (concat cs)" "length (concat cs) \<le> disk_free w2"
      "\<forall>q. fs w' q = (if q = f then Some (File ((b @ c) @ concat cs)) else fs w2 q)"
      "disk_free w' = disk_free w2 - length (concat cs)"
      "console w' = console w2 @ progress_of total_size (counts (d + length c) cs)"
      "requests_log w' = requests_log w2" "same_env w2 w'"
      by blast+
    have le': "length (concat (c # cs)) \<le> disk_free w"
      using ih(2) w2(2) le by simp
    have cons: "console w' = console w @ progress_of total_size (counts d (c # cs))"
      using ih(5) w2(3) False by (simp add: progress_of_def)
    from ih w2 le' cons False same_env_trans [OF w2(5) ih(7)] show ?thesis
      by simp
  qed
qed

lemma write_chunks_Inr:
  assumes "write_chunks f total_size d cs w = (Inr n, w')" and "fs w f = Some (File b)"
  shows "n = d + length (concat cs)" and "length (concat cs) \<le> disk_free w"
    and "fs w' = (fs w)(f \<mapsto> File (b @ concat cs))"
    and "disk_free w' = disk_free w - length (concat cs)"
    and "console w' = console w @ progress_of total_size (counts d cs)"
    and "requests_log w' = requests_log w" and "same_env w w'"
  using write_chunks_Inr_aux [OF assms] by (auto simp: fun_eq_iff)

lemma write_chunks_Inl_aux:
  "write_chunks f total_size d cs w = (Inl e, w') \<Longrightarrow> fs w f = Some (File b) \<Longrightarrow>
     e = OSError \<and>
     (\<exists>b'. \<forall>q. fs w' q = (if q = f then Some (File b') else fs w q)) \<and>
     requests_log w' = requests_log w \<and> same_env w w'"
proof (induction cs arbitrary: d w b)
  case Nil
  then show ?case by simp
next
  case (Cons c cs)
  show ?case
  proof (cases "c = []")
    case True
    with Cons show ?thesis by simp
  next
    case False
    show ?thesis
    proof (cases "f_write f c w")
      case (Pair res w1)
      show ?thesis
      proof (cases res)
        case (Inl e1)
        with Pair Cons.prems False have "e = e1" "w' = w1" by auto
        with f_write_Inl [of f c w e1 w1] Pair Inl Cons.prems(2) show ?thesis
          by auto
      next
        case (Inr u)
        from f_write_Inr [of f c w u w1] Pair Inr Cons.prems(2) have
          w1: "w1 = w\<lparr>fs := (fs w)(f \<mapsto> File (b @ c)), disk_free := disk_free w - length c\<rparr>"
          by auto
        define w2 where "w2 = (if total_size > 0
            then print (Progress (of_nat (d + length c) / of_int total_size * 100)
                                 (of_nat (d + length c) / 1048576) (of_int total_size / 1048576)) w1
            else w1)"
        have rec: "write_chunks f total_size (d + length c) cs w2 = (Inl e, w')"
          using Cons.prems(1) False Pair Inr by (simp add: w2_def Let_def)
        have w2: "\<forall>q. fs w2 q = (if q = f then Some (File (b @ c)) else fs w q)"
          "requests_log w2 = requests_log w" "same_env w w2"
          by (simp_all add: w2_def w1 print_def same_env_def)
        then have f2: "fs w2 f = Some (File (b @ c))"
          by simp
        from Cons.IH [OF rec f2] obtain b' where ih:
          "e = OSError" "\<forall>q. fs w' q = (if q = f then Some (File b') else fs w2 q)"
          "requests_log w' = requests_log w2" "same_env w2 w'"
          by blast
        have "\<forall>q. fs w' q = (if q = f then Some (File b') else fs w q)"
          using ih(2) w2(1) by simp
        with ih w2 same_env_trans [OF w2(3) ih(4)] show ?thesis
          by auto
      qed
    qed
  qed
qed


subsection \<open>The stages of a download\<close>

lemma joinpath_simps [simp]:
  "joinpath p c \<noteq> []" "joinpath p c \<noteq> p" "parent (joinpath p c) = p"
  "(joinpath p c = joinpath p c') = (c = c')"
  by (simp_all add: joinpath_def parent_def)

lemma stream_to_file_Inr:
  assumes "stream_to_file f total_size r w = (Inr n, w')" and "fs w f = None"
  shows "stream_error r = None" and "n = length (concat (chunks r))"
    and "length (concat (chunks r)) \<le> disk_free w"
    and "fs w' = (fs w)(f \<mapsto> File (concat (chunks r)))"
    and "disk_free w' = disk_free w - length (concat (chunks r))"
    and "console w' = console w @ progress_of total_size (counts 0 (chunks r))"
    and "requests_log w' = requests_log w" and "same_env w w'"
proof -
  from assms(1) obtain u w1 where op: "open_w f w = (Inr u, w1)"
    by (auto simp: stream_to_file_def split: prod.splits sum.splits)
  from open_w_Inr [OF op] assms(2) have w1:
    "fs w1 = (fs w)(f \<mapsto> File [])" "disk_free w1 = disk_free w"
    "console w1 = console w" "requests_log w1 = requests_log w" "same_env w w1"
    by auto
  from assms(1) op obtain w2 where
    wc: "write_chunks f total_size 0 (chunks r) w1 = (Inr n, w2)"
    and rest: "stream_error r = None" "w' = w2"
    by (auto simp: stream_to_file_def split: prod.splits sum.splits option.splits)
  have f1: "fs w1 f = Some (File [])" by (simp add: w1)
  note wcs = write_chunks_Inr [OF wc f1]
  show "stream_error r = None" by fact
  show "n = length (concat (chunks r))" using wcs(1) by simp
  show "length (concat (chunks r)) \<le> disk_free w" using wcs(2) w1 by simp
  show "fs w' = (fs w)(f \<mapsto> File (concat (chunks r)))" using wcs(3) w1 rest by simp
  show "disk_free w' = disk_free w - length (concat (chunks r))" using wcs(4) w1 rest by simp
  show "console w' = console w @ progress_of total_size (counts 0 (chunks r))"
    using wcs(5) w1 rest by simp
  show "requests_log w' = requests_log w" using wcs(6) w1 rest by simp
  show "same_env w w'" using same_env_trans [OF w1(5) wcs(7)] rest by simp
qed

lemma stream_to_file_Inl:
  assumes "stream_to_file f total_size r w = (Inl e, w')" and "fs w f = None"
  shows "(\<forall>q. q \<noteq> f \<longrightarrow> fs w' q = fs w q) \<and>
      (fs w' f = None \<or> (\<exists>b. fs w' f = Some (File b))) \<and>
      requests_log w' = requests_log w \<and> same_env w w' \<and>
      (e = OSError \<or> (\<exists>x. e = RequestException x \<and> stream_error r = Some x))"
proof (cases "open_w f w")
  case (Pair res w1)
  show ?thesis
    proof (cases res)
      case (Inl e1)
      with Pair assms(1) have "e = e1" "w' = w1"
        by (auto simp: stream_to_file_def)
      with open_w_Inl [of f w e1 w1] Pair Inl assms(2) show ?thesis by auto
    next
      case (Inr u)
      from open_w_Inr [of f w u w1] Pair Inr assms(2) have w1:
        "fs w1 = (fs w)(f \<mapsto> File [])"
        "requests_log w1 = requests_log w" "same_env w w1"
        by auto
      have f1: "fs w1 f = Some (File [])" by (simp add: w1)
      show ?thesis
      proof (cases "write_chunks f total_size 0 (chunks r) w1")
        case (Pair res2 w2)
        show ?thesis
        proof (cases res2)
          case (Inl e2)
          with Pair \<open>open_w f w = (res, w1)\<close> Inr assms(1) have ew: "e = e2" "w' = w2"
            by (auto simp: stream_to_file_def)
          from write_chunks_Inl_aux [of f total_size 0 "chunks r" w1 e2 w2, OF _ f1] Pair Inl
          obtain b' where
            "e2 = OSError" "\<forall>q. fs w2 q = (if q = f then Some (File b') else fs w1 q)"
            "requests_log w2 = requests_log w1" "same_env w1 w2"
            by blast
          with ew w1 same_env_trans [of w w1 w2] show ?thesis by auto
        next
          case (Inr n)
          with Pair \<open>open_w f w = (res, w1)\<close> \<open>res = Inr u\<close> assms(1)
          obtain x where ew: "stream_error r = Some x" "e = RequestException x" "w' = w2"
            by (auto simp: stream_to_file_def split: option.splits)
          from write_chunks_Inr [of f total_size 0 "chunks r" w1 n w2, OF _ f1] Pair Inr
          have "fs w2 = (fs w1)(f \<mapsto> File ([] @ concat (chunks r)))"
            "requests_log w2 = requests_log w1" "same_env w1 w2"
            by blast+
          with ew w1 same_env_trans [of w w1 w2] show ?thesis by auto
        qed
      qed
    qed
qed


lemma st_size_File: "fs w p = Some (File b) \<Longrightarrow> p \<noteq> [] \<Longrightarrow> st_size w p = Inr (length b)"
  by (simp add: st_size_def node_at_def)

lemma save_config_Inr:
  assumes "save_config f c url total_size w = (Inr p, w')"
    and "fs w f = Some (File b)" and "f \<noteq> []" and "c \<noteq> f"
  shows "p = f"
    and "fs w' = (fs w)(c \<mapsto> File (json_dump w (config_record f url (of_nat (length b) / 1048576)) 2))"
    and "console w' = console w @ (if total_size > 0 then [NewLine] else [])
            @ [DownloadComplete (of_nat (length b) / 1048576), ConfigSaved c]"
    and "requests_log w' = requests_log w" and "same_env w w'"
proof -
  define w1 where "w1 = (if total_size > 0 then print NewLine w else w)"
  define w2 where "w2 = print (DownloadComplete (of_nat (length b) / 1048576)) w1"
  have sz: "st_size w1 f = Inr (length b)"
    using assms(2,3) by (simp add: w1_def st_size_File print_def)
  have w2: "fs w2 = fs w" "requests_log w2 = requests_log w" "same_env w w2"
    "json_dump w2 = json_dump w"
    "console w2 = console w @ (if total_size > 0 then [NewLine] else [])
        @ [DownloadComplete (of_nat (length b) / 1048576)]"
    by (simp_all add: w2_def w1_def print_def same_env_def)
  from assms(1) sz obtain u w3 where op: "open_w c w2 = (Inr u, w3)"
    by (auto simp: save_config_def Let_def w1_def w2_def split: prod.splits sum.splits)
  from open_w_Inr [OF op] have w3:
    "fs w3 = (fs w2)(c \<mapsto> File [])" "console w3 = console w2"
    "requests_log w3 = requests_log w2" "same_env w2 w3"
    by auto
  from assms(1) sz op obtain u' w4 where
    fw: "f_write c (json_dump w3 (config_record f url (of_nat (length b) / 1048576)) 2) w3
           = (Inr u', w4)"
    and res: "p = f" "w' = print (ConfigSaved c) w4"
    by (auto simp: save_config_def Let_def w1_def w2_def split: prod.splits sum.splits)
  have jd: "json_dump w3 = json_dump w"
    using w3(4) w2(4) by (simp add: same_env_def)
  from f_write_Inr [OF fw] w3(1) have w4:
    "w4 = w3\<lparr>fs := (fs w3)(c \<mapsto> File (json_dump w (config_record f url (of_nat (length b) / 1048576)) 2)),
             disk_free := disk_free w3
               - length (json_dump w (config_record f url (of_nat (length b) / 1048576)) 2)\<rparr>"
    by (auto simp: jd)
  show "p = f" by fact
  show "fs w' = (fs w)(c \<mapsto> File (json_dump w (config_record f url (of_nat (length b) / 1048576)) 2))"
    by (simp add: res w4 w3 w2 print_def)
  show "console w' = console w @ (if total_size > 0 then [NewLine] else [])
            @ [DownloadComplete (of_nat (length b) / 1048576), ConfigSaved c]"
    by (simp add: res w4 w3 w2 print_def)
  show "requests_log w' = requests_log w"
    by (simp add: res w4 w3 w2 print_def)
  show "same_env w w'"
    using same_env_trans [OF w2(3) w3(4)] by (simp add: res w4 same_env_def print_def)
qed

lemma save_config_Inl:
  assumes "save_config f c url total_size w = (Inl e, w')"
    and "fs w f = Some (File b)" and "f \<noteq> []" and "c \<noteq> f"
  shows "e = OSError \<and> (\<forall>q. q \<noteq> c \<longrightarrow> fs w' q = fs w q) \<and>
         (fs w' c = fs w c \<or> fs w' c = Some (File [])) \<and>
         requests_log w' = requests_log w \<and> same_env w w'"
proof -
  define w1 where "w1 = (if total_size > 0 then print NewLine w else w)"
  define w2 where "w2 = print (DownloadComplete (of_nat (length b) / 1048576)) w1"
  have sz: "st_size w1 f = Inr (length b)"
    using assms(2,3) by (simp add: w1_def st_size_File print_def)
  have w2: "fs w2 = fs w" "requests_log w2 = requests_log w" "same_env w w2"
    by (simp_all add: w2_def w1_def print_def same_env_def)
  show ?thesis
  proof (cases "open_w c w2")
    case (Pair res w3)
    show ?thesis
    proof (cases res)
      case (Inl e1)
      with Pair assms(1) sz have "e = e1" "w' = w3"
        by (auto simp: save_config_def Let_def w1_def w2_def)
      with open_w_Inl [of c w2 e1 w3] Pair Inl w2 show ?thesis by auto
    next
      case (Inr u)
      from open_w_Inr [of c w2 u w3] Pair Inr have w3:
        "fs w3 = (fs w2)(c \<mapsto> File [])"
        "requests_log w3 = requests_log w2" "same_env w2 w3"
        by auto
      from assms(1) sz Pair Inr obtain payload where
        fw: "f_write c payload w3 = (Inl e, w')"
        by (auto simp: save_config_def Let_def w1_def w2_def split: prod.splits sum.splits)
      from f_write_Inl [OF fw] have "w' = w3" "e = OSError" by auto
      with w3 w2 same_env_trans [OF w2(3) w3(3)] show ?thesis by auto
    qed
  qed
qed


lemma requests_get_eq:
  "requests_get url w =
     ((case net w url of GetRaises e \<Rightarrow> Inl (RequestException e) | GetReturns r \<Rightarrow> Inr r),
      w\<lparr>requests_log := requests_log w @ [url]\<rparr>)"
  by (simp add: requests_get_def Let_def split: get_result.splits)

lemma download_try_Inr:
  assumes "download_try f c url w = (Inr p, w')"
    and "fs w f = None" and "f \<noteq> []" and "c \<noteq> f"
  shows "\<exists>r total_size.
           net w url = GetReturns r \<and> raise_for_status r = Inr () \<and>
           header_int (content_length r) = Inr total_size \<and> stream_error r = None \<and>
           p = f \<and> length (concat (chunks r)) \<le> disk_free w \<and>
           fs w' = (fs w)(f \<mapsto> File (concat (chunks r)),
                          c \<mapsto> File (json_dump w (config_record f url
                                   (of_nat (length (concat (chunks r))) / 1048576)) 2)) \<and>
           console w' = console w @ progress_of total_size (counts 0 (chunks r))
              @ (if total_size > 0 then [NewLine] else [])
              @ [DownloadComplete (of_nat (length (concat (chunks r))) / 1048576), ConfigSaved c] \<and>
           requests_log w' = requests_log w @ [url] \<and> same_env w w'"
proof -
  define w1 where "w1 = w\<lparr>requests_log := requests_log w @ [url]\<rparr>"
  have w1: "fs w1 = fs w" "console w1 = console w" "disk_free w1 = disk_free w"
    "requests_log w1 = requests_log w @ [url]" "same_env w w1" "json_dump w1 = json_dump w"
    by (simp_all add: w1_def same_env_def)
  from assms(1) obtain r total_size n w2 where
    r: "net w url = GetReturns r" "raise_for_status r = Inr ()"
       "header_int (content_length r) = Inr total_size"
    and st: "stream_to_file f total_size r w1 = (Inr n, w2)"
    and sc: "save_config f c url total_size w2 = (Inr p, w')"
    by (auto simp: download_try_def requests_get_eq w1_def
             split: get_result.splits sum.splits prod.splits)
  have f1: "fs w1 f = None" using assms(2) w1 by simp
  note sts = stream_to_file_Inr [OF st f1]
  have f2: "fs w2 f = Some (File (concat (chunks r)))" using sts(4) by simp
  note scs = save_config_Inr [OF sc f2 assms(3,4)]
  have jd: "json_dump w2 = json_dump w"
    using sts(8) w1(6) by (simp add: same_env_def)
  have "fs w' = (fs w)(f \<mapsto> File (concat (chunks r)),
                      c \<mapsto> File (json_dump w (config_record f url
                               (of_nat (length (concat (chunks r))) / 1048576)) 2))"
    using scs(2) sts(4) w1(1) jd by simp
  moreover have "console w' = console w @ progress_of total_size (counts 0 (chunks r))
              @ (if total_size > 0 then [NewLine] else [])
              @ [DownloadComplete (of_nat (length (concat (chunks r))) / 1048576), ConfigSaved c]"
    using scs(3) sts(6) w1(2) by simp
  moreover have "requests_log w' = requests_log w @ [url]"
    using scs(4) sts(7) w1(4) by simp
  moreover have "same_env w w'"
    using same_env_trans [OF same_env_trans [OF w1(5) sts(8)] scs(5)] .
  moreover have "length (concat (chunks r)) \<le> disk_free w"
    using sts(3) w1(3) by simp
  ultimately show ?thesis
    using r sts(1) scs(1) by blast
qed

lemma download_try_Inl:
  assumes "download_try f c url w = (Inl e, w')"
    and "fs w f = None" and "f \<noteq> []" and "c \<noteq> f"
  shows "(\<forall>q. q \<noteq> f \<and> q \<noteq> c \<longrightarrow> fs w' q = fs w q) \<and>
         (fs w' f = None \<or> (\<exists>b. fs w' f = Some (File b))) \<and>
         requests_log w' = requests_log w @ [url] \<and> same_env w w' \<and>
         (\<forall>x. e = RequestException x \<longrightarrow> fs w' c = fs w c) \<and>
         (fs w' c = fs w c \<or>
            (fs w' c = Some (File []) \<and>
             (\<exists>r. net w url = GetReturns r \<and> fs w' f = Some (File (concat (chunks r))))))"
proof -
  define w1 where "w1 = w\<lparr>requests_log := requests_log w @ [url]\<rparr>"
  have w1: "fs w1 = fs w" "requests_log w1 = requests_log w @ [url]" "same_env w w1"
    by (simp_all add: w1_def same_env_def)
  have f1: "fs w1 f = None" using assms(2) w1 by simp
  have early: ?thesis if "w' = w1"
    using that w1 assms(2) by simp
  show ?thesis
  proof (cases "net w url")
    case (GetRaises x)
    with assms(1) have "w' = w1"
      by (simp add: download_try_def requests_get_eq w1_def)
    then show ?thesis by (rule early)
  next
    case (GetReturns r)
    show ?thesis
    proof (cases "raise_for_status r")
      case (Inl e1)
      with GetReturns assms(1) have "w' = w1"
        by (simp add: download_try_def requests_get_eq w1_def)
      then show ?thesis by (rule early)
    next
      case (Inr u)
      show ?thesis
      proof (cases "header_int (content_length r)")
        case (Inl e1)
        with GetReturns \<open>raise_for_status r = Inr u\<close> assms(1) have "w' = w1"
          by (simp add: download_try_def requests_get_eq w1_def)
        then show ?thesis by (rule early)
      next
        case (Inr total_size)
        show ?thesis
        proof (cases "stream_to_file f total_size r w1")
          case (Pair res w2)
          show ?thesis
          proof (cases res)
            case (Inl e2)
            with Pair GetReturns \<open>raise_for_status r = Inr u\<close> Inr assms(1)
            have ew: "e = e2" "w' = w2"
              by (auto simp: download_try_def requests_get_eq w1_def)
            from stream_to_file_Inl [of f total_size r w1 e2 w2, OF _ f1] Pair Inl
            have "(\<forall>q. q \<noteq> f \<longrightarrow> fs w2 q = fs w1 q)"
              "fs w2 f = None \<or> (\<exists>b. fs w2 f = Some (File b))"
              "requests_log w2 = requests_log w1" "same_env w1 w2"
              by blast+
            with ew w1 assms(4) same_env_trans [of w w1 w2] show ?thesis by auto
          next
            case (Inr n)
            with Pair have st: "stream_to_file f total_size r w1 = (Inr n, w2)" by simp
            note sts = stream_to_file_Inr [OF st f1]
            have f2: "fs w2 f = Some (File (concat (chunks r)))" using sts(4) by simp
            from st GetReturns \<open>raise_for_status r = Inr u\<close>
              \<open>header_int (content_length r) = Inr total_size\<close> assms(1)
            have sc: "save_config f c url total_size w2 = (Inl e, w')"
              by (simp add: download_try_def requests_get_eq w1_def)
            from save_config_Inl [OF sc f2 assms(3,4)] have scs:
              "e = OSError" "\<forall>q. q \<noteq> c \<longrightarrow> fs w' q = fs w2 q"
              "fs w' c = fs w2 c \<or> fs w' c = Some (File [])"
              "requests_log w' = requests_log w2" "same_env w2 w'"
              by blast+
            have fw': "fs w' f = Some (File (concat (chunks r)))"
              using scs(2) f2 assms(4) by simp
            have cw2: "fs w2 c = fs w c" using sts(4) w1(1) assms(4) by simp
            have oth: "\<forall>q. q \<noteq> f \<and> q \<noteq> c \<longrightarrow> fs w' q = fs w q"
              using scs(2) sts(4) w1(1) by simp
            have env: "same_env w w'"
              using same_env_trans [OF same_env_trans [OF w1(3) sts(8)] scs(5)] .
            have lg: "requests_log w' = requests_log w @ [url]"
              using scs(4) sts(7) w1(2) by simp
            from scs(1,3) fw' cw2 oth env lg GetReturns show ?thesis by auto
          qed
        qed
      qed
    qed
  qed
qed

lemma handle_failure_request:
  assumes "fs w f = None \<or> (\<exists>b. fs w f = Some (File b))" and "f \<noteq> []"
  shows "\<exists>w'. handle_failure f (RequestException x) w = (SysExit 1, w') \<and>
           fs w' = (fs w)(f := None) \<and>
           console w' = console w @ [DownloadFailed (RequestException x)] \<and>
           requests_log w' = requests_log w \<and> same_env w w'"
  using assms
  by (auto simp: handle_failure_def Let_def path_exists_def node_at_def unlink_def print_def
                 same_env_def)

lemma handle_failure_other:
  "\<forall>x. e \<noteq> RequestException x \<Longrightarrow> handle_failure f e w = (Raised e, w)"
  by (cases e) (auto simp: handle_failure_def)

subsection \<open>The two paths through \<^verbatim>\<open>download_hla_fasta\<close>\<close>


lemma download_fresh:
  assumes mk: "mkdir_parents cache_dir (fs w) = Inr t"
    and fresh: "fs w (joinpath cache_dir ''hla_prot.fasta'') = None"
  shows "download_hla_fasta cache_dir url w =
           (case download_try (joinpath cache_dir ''hla_prot.fasta'')
                   (joinpath cache_dir ''config.json'') url
                   (w\<lparr>fs := t,
                      console := console w @
                        [Downloading, ShowURL url,
                         Destination (joinpath cache_dir ''hla_prot.fasta'')]\<rparr>) of
              (Inr p, w3) \<Rightarrow> (Returned p, w3)
            | (Inl e, w3) \<Rightarrow> handle_failure (joinpath cache_dir ''hla_prot.fasta'') e w3)"
proof -
  have t: "t (joinpath cache_dir ''hla_prot.fasta'') = None"
    using mkdir_parents_child [OF mk] fresh by simp
  show ?thesis
    using t
    by (simp add: download_hla_fasta_def mk Let_def path_exists_def node_at_def print_def)
qed

lemma download_Returned_mkdir:
  "download_hla_fasta cache_dir url w = (Returned p, w') \<Longrightarrow>
     \<exists>t. mkdir_parents cache_dir (fs w) = Inr t"
  by (cases "mkdir_parents cache_dir (fs w)") (auto simp: download_hla_fasta_def)

subsection \<open>Running the script on the concrete worlds\<close>

lemma mkdir_test: "mkdir_parents test_cache Map.empty = Inr test_dirs"
  by (simp add: mkdir_parents.simps test_cache_def test_dirs_def node_at_def parent_def)

lemmas run_defs =
  download_try_def requests_get_eq raise_for_status_def header_int_def stream_to_file_def
  open_w_def f_write_def save_config_def st_size_def handle_failure_def unlink_def
  path_exists_def node_at_def parent_def joinpath_def print_def Let_def config_record_def

lemmas test_defs =
  linux_world_def test_response_def test_dirs_def test_cache_def test_record_def
  stub_dump_def test_url_def str_path_def

lemma run_linux:
  "download_hla_fasta test_cache test_url linux_world =
     (Returned (joinpath test_cache ''hla_prot.fasta''), downloaded_world)"
proof -
  have mk: "mkdir_parents test_cache (fs linux_world) = Inr test_dirs"
    using mkdir_test by (simp add: linux_world_def)
  have fresh: "fs linux_world (joinpath test_cache ''hla_prot.fasta'') = None"
    by (simp add: linux_world_def)
  show ?thesis
    unfolding download_fresh [OF mk fresh]
    by (simp add: run_defs test_defs downloaded_world_def)
qed

lemma handle_failure_not_Returned:
  "handle_failure f e w = (out, w') \<Longrightarrow> out \<noteq> Returned p"
  by (auto simp: handle_failure_def Let_def split: exn.splits if_splits prod.splits sum.splits)

lemma download_Returned:
  assumes run: "download_hla_fasta cache_dir url w = (Returned p, w')"
    and fresh: "fs w (joinpath cache_dir ''hla_prot.fasta'') = None"
  shows "\<exists>t r total_size.
           mkdir_parents cache_dir (fs w) = Inr t \<and>
           net w url = GetReturns r \<and> raise_for_status r = Inr () \<and>
           header_int (content_length r) = Inr total_size \<and> stream_error r = None \<and>
           p = joinpath cache_dir ''hla_prot.fasta'' \<and>
           length (concat (chunks r)) \<le> disk_free w \<and>
           fs w' = t(joinpath cache_dir ''hla_prot.fasta'' \<mapsto> File (concat (chunks r)),
                     joinpath cache_dir ''config.json'' \<mapsto>
                       File (json_dump w (config_record (joinpath cache_dir ''hla_prot.fasta'') url
                               (of_nat (length (concat (chunks r))) / 1048576)) 2)) \<and>
           console w' = console w
              @ [Downloading, ShowURL url, Destination (joinpath cache_dir ''hla_prot.fasta'')]
              @ progress_of total_size (counts 0 (chunks r))
              @ (if total_size > 0 then [NewLine] else [])
              @ [DownloadComplete (of_nat (length (concat (chunks r))) / 1048576),
                 ConfigSaved (joinpath cache_dir ''config.json'')] \<and>
           requests_log w' = requests_log w @ [url] \<and> same_env w w'"
proof -
  let ?f = "joinpath cache_dir ''hla_prot.fasta''"
  let ?c = "joinpath cache_dir ''config.json''"
  from download_Returned_mkdir [OF run] obtain t where
    mk: "mkdir_parents cache_dir (fs w) = Inr t" by blast
  define w2 where "w2 = w\<lparr>fs := t, console := console w @ [Downloading, ShowURL url, Destination ?f]\<rparr>"
  have w2: "fs w2 = t" "console w2 = console w @ [Downloading, ShowURL url, Destination ?f]"
    "requests_log w2 = requests_log w" "same_env w w2" "disk_free w2 = disk_free w"
    "net w2 = net w" "json_dump w2 = json_dump w"
    by (simp_all add: w2_def same_env_def)
  have f2: "fs w2 ?f = None"
    using mkdir_parents_child [OF mk] fresh w2(1) by simp
  have cf: "?c \<noteq> ?f" by simp
  have fne: "?f \<noteq> []" by simp
  from run have unf:
    "(case download_try ?f ?c url w2 of
        (Inr p, w3) \<Rightarrow> (Returned p, w3)
      | (Inl e, w3) \<Rightarrow> handle_failure ?f e w3) = (Returned p, w')"
    unfolding download_fresh [OF mk fresh] w2_def .
  have dt: "download_try ?f ?c url w2 = (Inr p, w')"
  proof (cases "download_try ?f ?c url w2")
    case (Pair res w3)
    show ?thesis
    proof (cases res)
      case (Inl e)
      with Pair unf have "handle_failure ?f e w3 = (Returned p, w')" by simp
      from handle_failure_not_Returned [OF this, of p] show ?thesis by simp
    next
      case (Inr q)
      with Pair unf show ?thesis by simp
    qed
  qed
  from download_try_Inr [OF dt f2 fne cf] obtain r total_size where r:
    "net w2 url = GetReturns r" "raise_for_status r = Inr ()"
    "header_int (content_length r) = Inr total_size" "stream_error r = None"
    "p = ?f" "length (concat (chunks r)) \<le> disk_free w2"
    "fs w' = (fs w2)(?f \<mapsto> File (concat (chunks r)),
                     ?c \<mapsto> File (json_dump w2 (config_record ?f url
                                (of_nat (length (concat (chunks r))) / 1048576)) 2))"
    "console w' = console w2 @ progress_of total_size (counts 0 (chunks r))
        @ (if total_size > 0 then [NewLine] else [])
        @ [DownloadComplete (of_nat (length (concat (chunks r))) / 1048576), ConfigSaved ?c]"
    "requests_log w' = requests_log w2 @ [url]" "same_env w2 w'"
    by blast
  have env: "same_env w w'" using same_env_trans [OF w2(4) r(10)] .
  from mk r(1-9) env show ?thesis
    unfolding w2 by (intro exI [of _ t] exI [of _ r] exI [of _ total_size]) simp
qed

section \<open>The cache directory resolver\<close>

text \<open>
  C9. The resolver has no effect on the world, and its result depends on the platform
  name and the home directory only: worlds that agree on the two get the same path,
  whatever their filesystems, environments and consoles are.
\<close>

theorem get_cache_dir_pure:
  assumes "sys_platform w' = sys_platform w" and "home w' = home w"
  shows "fst (get_cache_dir w') = fst (get_cache_dir w) \<and>
         snd (get_cache_dir w) = w \<and> snd (get_cache_dir w') = w'"
  using assms by (simp add: get_cache_dir_def)

theorem get_cache_dir_pure_witness:
  "fst (get_cache_dir (linux_world\<lparr>fs := [[''tmp''] \<mapsto> Dir], console := [NotSetUp]\<rparr>))
     = fst (get_cache_dir linux_world) \<and>
   snd (get_cache_dir linux_world) = linux_world \<and>
   snd (get_cache_dir (linux_world\<lparr>fs := [[''tmp''] \<mapsto> Dir], console := [NotSetUp]\<rparr>))
     = linux_world\<lparr>fs := [[''tmp''] \<mapsto> Dir], console := [NotSetUp]\<rparr>"
proof -
  have p: "sys_platform (linux_world\<lparr>fs := [[''tmp''] \<mapsto> Dir], console := [NotSetUp]\<rparr>)
             = sys_platform linux_world"
    by simp
  have h: "home (linux_world\<lparr>fs := [[''tmp''] \<mapsto> Dir], console := [NotSetUp]\<rparr>)
             = home linux_world"
    by simp
  show ?thesis by (rule get_cache_dir_pure [OF p h])
qed

text \<open>
  C5, as amended. The resolver tests \<^verbatim>\<open>sys.platform\<close> against \<^verbatim>\<open>"win32"\<close> and builds
  both paths from the home directory, whatever the environment holds:
  \<open>AppData/Local/hai_def_cache\<close> below it on \<^verbatim>\<open>win32\<close>, \<open>.cache/hai_def\<close> below it
  otherwise. It agrees with the specification's cache root on every other platform, and
  on \<^verbatim>\<open>win32\<close> exactly when \<^verbatim>\<open>LOCALAPPDATA\<close> is set and names \<open>AppData/Local\<close> below
  the home directory.
\<close>

theorem get_cache_dir_platform:
  "get_cache_dir w =
     (if sys_platform w = ''win32''
      then home w @ [''AppData'', ''Local'', ''hai_def_cache'']
      else home w @ [''.cache'', ''hai_def''], w) \<and>
   (sys_platform w \<noteq> ''win32'' \<longrightarrow> spec_cache_dir w = Some (fst (get_cache_dir w))) \<and>
   (sys_platform w = ''win32'' \<longrightarrow>
      (spec_cache_dir w = Some (fst (get_cache_dir w))) =
      (\<exists>s. environ w ''LOCALAPPDATA'' = Some s \<and> Path s = home w @ [''AppData'', ''Local'']))"
  by (auto simp: get_cache_dir_def spec_cache_dir_def joinpath_def)

theorem get_cache_dir_platform_witness:
  "get_cache_dir usual_windows_world =
     ([''C:'', ''Users'', ''u'', ''AppData'', ''Local'', ''hai_def_cache''], usual_windows_world) \<and>
   spec_cache_dir usual_windows_world = Some (fst (get_cache_dir usual_windows_world)) \<and>
   get_cache_dir linux_world = ([''home'', ''u'', ''.cache'', ''hai_def''], linux_world) \<and>
   spec_cache_dir linux_world = Some (fst (get_cache_dir linux_world)) \<and>
   get_cache_dir windows_world =
     ([''C:'', ''Users'', ''u'', ''AppData'', ''Local'', ''hai_def_cache''], windows_world)"
proof -
  have win: "sys_platform usual_windows_world = ''win32''"
            "home usual_windows_world = [''C:'', ''Users'', ''u'']"
    by (simp_all add: usual_windows_world_def)
  have env: "\<exists>s. environ usual_windows_world ''LOCALAPPDATA'' = Some s \<and>
                 Path s = home usual_windows_world @ [''AppData'', ''Local'']"
    by (simp add: usual_windows_world_def Path_def keeps_def)
  have lin: "sys_platform linux_world \<noteq> ''win32''" "home linux_world = [''home'', ''u'']"
    by (simp_all add: linux_world_def)
  have moved: "sys_platform windows_world = ''win32''"
              "home windows_world = [''C:'', ''Users'', ''u'']"
    by (simp_all add: windows_world_def)
  from get_cache_dir_platform [of usual_windows_world] win env
  have 1: "get_cache_dir usual_windows_world =
             ([''C:'', ''Users'', ''u'', ''AppData'', ''Local'', ''hai_def_cache''],
              usual_windows_world) \<and>
           spec_cache_dir usual_windows_world = Some (fst (get_cache_dir usual_windows_world))"
    by simp
  from get_cache_dir_platform [of linux_world] lin
  have 2: "get_cache_dir linux_world = ([''home'', ''u'', ''.cache'', ''hai_def''], linux_world) \<and>
           spec_cache_dir linux_world = Some (fst (get_cache_dir linux_world))"
    by simp
  from get_cache_dir_platform [of windows_world] moved
  have 3: "get_cache_dir windows_world =
             ([''C:'', ''Users'', ''u'', ''AppData'', ''Local'', ''hai_def_cache''], windows_world)"
    by simp
  from 1 2 3 show ?thesis by blast
qed

text \<open>
  C5 as the specification states it fails: with \<^verbatim>\<open>LOCALAPPDATA\<close> moved to another
  drive the resolver still answers with the directory below the home directory.
\<close>

theorem get_cache_dir_localappdata_counterexample:
  "fst (get_cache_dir windows_world) =
     [''C:'', ''Users'', ''u'', ''AppData'', ''Local'', ''hai_def_cache''] \<and>
   spec_cache_dir windows_world = Some [''D:'', ''Profiles'', ''u'', ''hai_def_cache''] \<and>
   spec_cache_dir windows_world \<noteq> Some (fst (get_cache_dir windows_world))"
  by (simp add: get_cache_dir_def spec_cache_dir_def windows_world_def linux_world_def
                Path_def keeps_def joinpath_def)

section \<open>A populated cache\<close>

lemmas load_defs =
  load_hla_path_def exists_or_raise_def print_or_raise_def load_try_def open_read_def
  read_file_def subscript_def path_exists_def node_at_def get_cache_dir_def Let_def






section \<open>A completed download\<close>

text \<open>
  C6. When a call that had to download returns, the target file holds the received bytes,
  \<^verbatim>\<open>stat\<close> reports their number, and \<^verbatim>\<open>config.json\<close> holds what
  \<^verbatim>\<open>json.dump\<close> with \<^verbatim>\<open>indent=2\<close> writes for the object with exactly the keys
  \<^verbatim>\<open>hla_fasta_path\<close> (the target path as a string), \<^verbatim>\<open>download_url\<close> (the URL) and
  \<^verbatim>\<open>file_size_mb\<close> (that number of bytes divided by 1048576). The quotient is kept
  exact here; the script's float is the nearest double, which is the quotient itself
  for every size below two to the power 53.
\<close>

theorem config_matches_file:
  assumes run: "download_hla_fasta cache_dir url w = (Returned p, w')"
    and fresh: "fs w (joinpath cache_dir ''hla_prot.fasta'') = None"
  shows "p = joinpath cache_dir ''hla_prot.fasta'' \<and>
         (\<exists>b. fs w' p = Some (File b) \<and> st_size w' p = Inr (length b) \<and>
              fs w' (joinpath cache_dir ''config.json'') =
                Some (File (json_dump w'
                  (JObj [(''hla_fasta_path'', JStr (str_path p)),
                         (''download_url'', JStr url),
                         (''file_size_mb'', JNum (of_nat (length b) / 1048576))]) 2)))"
proof -
  from download_Returned [OF run fresh] obtain t and r :: response where
    p: "p = joinpath cache_dir ''hla_prot.fasta''" and
    fs: "fs w' = t(joinpath cache_dir ''hla_prot.fasta'' \<mapsto> File (concat (chunks r)),
                     joinpath cache_dir ''config.json'' \<mapsto>
                       File (json_dump w (config_record (joinpath cache_dir ''hla_prot.fasta'') url
                               (of_nat (length (concat (chunks r))) / 1048576)) 2))" and
    env: "same_env w w'"
    by blast
  have jd: "json_dump w' = json_dump w" using env by (simp add: same_env_def)
  have "fs w' p = Some (File (concat (chunks r)))"
    by (simp add: fs p)
  moreover have "st_size w' p = Inr (length (concat (chunks r)))"
    by (simp add: st_size_def node_at_def fs p)
  moreover have "fs w' (joinpath cache_dir ''config.json'') =
                Some (File (json_dump w'
                  (JObj [(''hla_fasta_path'', JStr (str_path p)),
                         (''download_url'', JStr url),
                         (''file_size_mb'', JNum (of_nat (length (concat (chunks r))) / 1048576))]) 2))"
    by (simp add: fs p jd config_record_def)
  ultimately show ?thesis using p by blast
qed

theorem config_matches_file_witness:
  "joinpath test_cache ''hla_prot.fasta'' = joinpath test_cache ''hla_prot.fasta'' \<and>
   (\<exists>b. fs downloaded_world (joinpath test_cache ''hla_prot.fasta'') = Some (File b) \<and>
        st_size downloaded_world (joinpath test_cache ''hla_prot.fasta'') = Inr (length b) \<and>
        fs downloaded_world (joinpath test_cache ''config.json'') =
          Some (File (json_dump downloaded_world
            (JObj [(''hla_fasta_path'', JStr (str_path (joinpath test_cache ''hla_prot.fasta''))),
                   (''download_url'', JStr test_url),
                   (''file_size_mb'', JNum (of_nat (length b) / 1048576))]) 2)))"
proof -
  have fresh: "fs linux_world (joinpath test_cache ''hla_prot.fasta'') = None"
    by (simp add: linux_world_def)
  show ?thesis by (rule config_matches_file [OF run_linux fresh])
qed

lemma wf_path_joinpath: "wf_path p \<Longrightarrow> wf_name c \<Longrightarrow> wf_path (joinpath p c)"
  by (simp add: wf_path_def joinpath_def)

text \<open>
  C3. After a call that downloaded into the directory \<^verbatim>\<open>get_cache_dir\<close> names and
  returned \<open>p\<close>, \<^verbatim>\<open>load_hla_path\<close> returns \<open>p\<close> and prints nothing, given that
  \<^verbatim>\<open>json.load\<close> reads back the record \<^verbatim>\<open>json.dump\<close> wrote and that the cache
  directory is a path object (its names are non-empty and free of the separator). This
  holds on every machine where the loader gets to the config file: the home directory
  is known and the file can be looked for and opened. Whether printing works does not
  matter.
\<close>

theorem load_after_download:
  assumes run: "download_hla_fasta cache_dir url w = (Returned p, w')"
    and fresh: "fs w (joinpath cache_dir ''hla_prot.fasta'') = None"
    and same: "fst (get_cache_dir w) = cache_dir"
    and wf: "wf_path cache_dir"
    and size: "fs w' p = Some (File b)"
    and codec: "json_load w (json_dump w (config_record p url (of_nat (length b) / 1048576)) 2)
                  = Inr (config_record p url (of_nat (length b) / 1048576))"
    and reach: "home_error \<phi> = None"
               "stat_error \<phi> (joinpath cache_dir ''config.json'') = None"
               "open_error \<phi> (joinpath cache_dir ''config.json'') = None"
  shows "load_hla_path \<phi> w' = (Returned (Some p), w')"
proof -
  let ?f = "joinpath cache_dir ''hla_prot.fasta''"
  let ?c = "joinpath cache_dir ''config.json''"
  from download_Returned [OF run fresh] obtain t and r :: response where
    p: "p = ?f" and
    fs: "fs w' = t(?f \<mapsto> File (concat (chunks r)),
                   ?c \<mapsto> File (json_dump w (config_record ?f url
                               (of_nat (length (concat (chunks r))) / 1048576)) 2))" and
    env: "same_env w w'"
    by blast
  have b: "b = concat (chunks r)" using size by (simp add: fs p)
  have gc: "get_cache_dir w' = (cache_dir, w')"
    using same env by (auto simp: get_cache_dir_def same_env_def split: if_splits)
  have jl: "json_load w' = json_load w" using env by (simp add: same_env_def)
  have ex: "path_exists w' ?c" by (simp add: path_exists_def node_at_def fs)
  have rd: "read_file ?c w' = Inr (json_dump w (config_record ?f url
                               (of_nat (length (concat (chunks r))) / 1048576)) 2)"
    by (simp add: read_file_def node_at_def fs)
  have "wf_name ''hla_prot.fasta''" by (simp add: wf_name_def keeps_def)
  then have "wf_path ?f" using wf by (rule wf_path_joinpath [rotated])
  then have rt: "Path (str_path ?f) = ?f" by (rule Path_str_path)
  have "load_try \<phi> ?c w' = Inr ?f"
    using codec rt reach
    by (simp add: load_try_def open_read_def rd jl p b config_record_def subscript_def)
  then show ?thesis
    using ex reach by (simp add: load_hla_path_def exists_or_raise_def gc p)
qed

theorem load_after_download_witness:
  "load_hla_path no_faults downloaded_world =
     (Returned (Some (joinpath test_cache ''hla_prot.fasta'')), downloaded_world) \<and>
   load_hla_path ascii_stdout downloaded_world =
     (Returned (Some (joinpath test_cache ''hla_prot.fasta'')), downloaded_world)"
proof -
  have fresh: "fs linux_world (joinpath test_cache ''hla_prot.fasta'') = None"
    by (simp add: linux_world_def)
  have same: "fst (get_cache_dir linux_world) = test_cache"
    by (simp add: get_cache_dir_def linux_world_def test_cache_def joinpath_def)
  have wf: "wf_path test_cache"
    by (simp add: wf_path_def wf_name_def keeps_def test_cache_def)
  have size: "fs downloaded_world (joinpath test_cache ''hla_prot.fasta'') = Some (File ''>ACG'')"
    by (simp add: downloaded_world_def joinpath_def)
  have codec: "json_load linux_world
                 (json_dump linux_world
                    (config_record (joinpath test_cache ''hla_prot.fasta'') test_url
                       (of_nat (length ''>ACG'') / 1048576)) 2)
               = Inr (config_record (joinpath test_cache ''hla_prot.fasta'') test_url
                       (of_nat (length ''>ACG'') / 1048576))"
    by (simp add: linux_world_def stub_load_def config_record_def test_record_def
                  test_cache_def joinpath_def str_path_def)
  have ok: "home_error no_faults = None"
           "stat_error no_faults (joinpath test_cache ''config.json'') = None"
           "open_error no_faults (joinpath test_cache ''config.json'') = None"
    by (simp_all add: no_faults_def)
  have ok': "home_error ascii_stdout = None"
            "stat_error ascii_stdout (joinpath test_cache ''config.json'') = None"
            "open_error ascii_stdout (joinpath test_cache ''config.json'') = None"
    by (simp_all add: ascii_stdout_def no_faults_def)
  show ?thesis
    by (intro conjI load_after_download [OF run_linux fresh same wf size codec ok]
                    load_after_download [OF run_linux fresh same wf size codec ok'])
qed

section \<open>Progress lines\<close>
















section \<open>The config loader\<close>

text \<open>
  C7, as amended. \<^verbatim>\<open>load_hla_path\<close> never exits, and the world it leaves differs from
  the one it found by console lines only: nothing is written, requested or removed. An
  exception leaves it only from \<^verbatim>\<open>Path.home()\<close>, from \<^verbatim>\<open>config_file.exists()\<close> or from
  one of its two \<^verbatim>\<open>print\<close> calls, and each of these does leave it. Where the home
  directory is known and the config file can be looked for: without a config file it
  prints the guidance and returns \<^verbatim>\<open>None\<close>; with a config file that cannot be opened,
  that \<^verbatim>\<open>json.load\<close> rejects, that holds no JSON object, whose object lacks the key
  \<^verbatim>\<open>hla_fasta_path\<close> or has a value there that is no string, it prints the error and
  returns \<^verbatim>\<open>None\<close>; with any other config file it returns the path and prints nothing.
\<close>

theorem load_hla_path_errors:
  "(\<exists>out ms. load_hla_path \<phi> w = (out, w\<lparr>console := console w @ ms\<rparr>) \<and>
             (\<forall>n. out \<noteq> SysExit n)) \<and>
   (\<forall>e. fst (load_hla_path \<phi> w) = Raised e \<longrightarrow>
      home_error \<phi> = Some e \<or>
      stat_error \<phi> (joinpath (fst (get_cache_dir w)) ''config.json'') = Some e \<or>
      print_error \<phi> NotSetUp = Some e \<or> (\<exists>e0. print_error \<phi> (ErrorLoading e0) = Some e)) \<and>
   (\<forall>e. home_error \<phi> = Some e \<longrightarrow> load_hla_path \<phi> w = (Raised e, w)) \<and>
   (\<forall>e. home_error \<phi> = None \<and>
        stat_error \<phi> (joinpath (fst (get_cache_dir w)) ''config.json'') = Some e \<longrightarrow>
      load_hla_path \<phi> w = (Raised e, w)) \<and>
   (home_error \<phi> = None \<and>
    stat_error \<phi> (joinpath (fst (get_cache_dir w)) ''config.json'') = None \<longrightarrow>
      (fs w (joinpath (fst (get_cache_dir w)) ''config.json'') = None \<longrightarrow>
         (print_error \<phi> NotSetUp = None \<longrightarrow>
            load_hla_path \<phi> w = (Returned None, print NotSetUp w)) \<and>
         (\<forall>e. print_error \<phi> NotSetUp = Some e \<longrightarrow> load_hla_path \<phi> w = (Raised e, w))) \<and>
      (\<forall>e. fs w (joinpath (fst (get_cache_dir w)) ''config.json'') \<noteq> None \<and>
           load_try \<phi> (joinpath (fst (get_cache_dir w)) ''config.json'') w = Inl e \<longrightarrow>
         (print_error \<phi> (ErrorLoading e) = None \<longrightarrow>
            load_hla_path \<phi> w = (Returned None, print (ErrorLoading e) w)) \<and>
         (\<forall>e'. print_error \<phi> (ErrorLoading e) = Some e' \<longrightarrow>
            load_hla_path \<phi> w = (Raised e', w))) \<and>
      (\<forall>p. fs w (joinpath (fst (get_cache_dir w)) ''config.json'') \<noteq> None \<and>
           load_try \<phi> (joinpath (fst (get_cache_dir w)) ''config.json'') w = Inr p \<longrightarrow>
         load_hla_path \<phi> w = (Returned (Some p), w))) \<and>
   (\<forall>c e. open_error \<phi> c = Some e \<longrightarrow> load_try \<phi> c w = Inl e) \<and>
   (\<forall>c. open_error \<phi> c = None \<and> fs w c = Some Dir \<longrightarrow> load_try \<phi> c w = Inl OSError) \<and>
   (\<forall>c b. c \<noteq> [] \<and> open_error \<phi> c = None \<and> fs w c = Some (File b) \<longrightarrow>
      (\<forall>e. json_load w b = Inl e \<longrightarrow> load_try \<phi> c w = Inl e) \<and>
      (\<forall>v. json_load w b = Inr v \<and> (\<forall>kvs. v \<noteq> JObj kvs) \<longrightarrow>
         load_try \<phi> c w = Inl TypeError) \<and>
      (\<forall>kvs. json_load w b = Inr (JObj kvs) \<longrightarrow>
         (map_of kvs ''hla_fasta_path'' = None \<longrightarrow>
            load_try \<phi> c w = Inl (KeyError ''hla_fasta_path'')) \<and>
         (\<forall>x. map_of kvs ''hla_fasta_path'' = Some x \<and> (\<forall>s. x \<noteq> JStr s) \<longrightarrow>
            load_try \<phi> c w = Inl TypeError) \<and>
         (\<forall>s. map_of kvs ''hla_fasta_path'' = Some (JStr s) \<longrightarrow>
            load_try \<phi> c w = Inr (Path s))))"
proof (intro conjI)
  show "\<exists>out ms. load_hla_path \<phi> w = (out, w\<lparr>console := console w @ ms\<rparr>) \<and>
                 (\<forall>n. out \<noteq> SysExit n)"
  proof (cases "load_hla_path \<phi> w")
    case (Pair out w')
    then have "(w' = w\<lparr>console := console w @ []\<rparr> \<or>
                (\<exists>m. w' = w\<lparr>console := console w @ [m]\<rparr>)) \<and> (\<forall>n. out \<noteq> SysExit n)"
      by (auto simp: load_hla_path_def exists_or_raise_def print_or_raise_def print_def
                     get_cache_dir_def Let_def
               split: option.splits sum.splits if_splits)
    with Pair show ?thesis by blast
  qed
  show "\<forall>e. fst (load_hla_path \<phi> w) = Raised e \<longrightarrow>
      home_error \<phi> = Some e \<or>
      stat_error \<phi> (joinpath (fst (get_cache_dir w)) ''config.json'') = Some e \<or>
      print_error \<phi> NotSetUp = Some e \<or> (\<exists>e0. print_error \<phi> (ErrorLoading e0) = Some e)"
    by (auto simp: load_hla_path_def exists_or_raise_def print_or_raise_def
                   get_cache_dir_def Let_def
             split: option.splits sum.splits if_splits)
  show "\<forall>e. home_error \<phi> = Some e \<longrightarrow> load_hla_path \<phi> w = (Raised e, w)"
    by (simp add: load_hla_path_def)
  show "\<forall>e. home_error \<phi> = None \<and>
        stat_error \<phi> (joinpath (fst (get_cache_dir w)) ''config.json'') = Some e \<longrightarrow>
      load_hla_path \<phi> w = (Raised e, w)"
    by (simp add: load_hla_path_def exists_or_raise_def get_cache_dir_def Let_def)
  show "home_error \<phi> = None \<and>
    stat_error \<phi> (joinpath (fst (get_cache_dir w)) ''config.json'') = None \<longrightarrow>
      (fs w (joinpath (fst (get_cache_dir w)) ''config.json'') = None \<longrightarrow>
         (print_error \<phi> NotSetUp = None \<longrightarrow>
            load_hla_path \<phi> w = (Returned None, print NotSetUp w)) \<and>
         (\<forall>e. print_error \<phi> NotSetUp = Some e \<longrightarrow> load_hla_path \<phi> w = (Raised e, w))) \<and>
      (\<forall>e. fs w (joinpath (fst (get_cache_dir w)) ''config.json'') \<noteq> None \<and>
           load_try \<phi> (joinpath (fst (get_cache_dir w)) ''config.json'') w = Inl e \<longrightarrow>
         (print_error \<phi> (ErrorLoading e) = None \<longrightarrow>
            load_hla_path \<phi> w = (Returned None, print (ErrorLoading e) w)) \<and>
         (\<forall>e'. print_error \<phi> (ErrorLoading e) = Some e' \<longrightarrow>
            load_hla_path \<phi> w = (Raised e', w))) \<and>
      (\<forall>p. fs w (joinpath (fst (get_cache_dir w)) ''config.json'') \<noteq> None \<and>
           load_try \<phi> (joinpath (fst (get_cache_dir w)) ''config.json'') w = Inr p \<longrightarrow>
         load_hla_path \<phi> w = (Returned (Some p), w))"
    by (auto simp: load_hla_path_def exists_or_raise_def print_or_raise_def path_exists_def
                   node_at_def get_cache_dir_def Let_def joinpath_def)
  show "\<forall>c e. open_error \<phi> c = Some e \<longrightarrow> load_try \<phi> c w = Inl e"
    by (simp add: load_try_def open_read_def)
  show "\<forall>c. open_error \<phi> c = None \<and> fs w c = Some Dir \<longrightarrow> load_try \<phi> c w = Inl OSError"
    by (auto simp: load_try_def open_read_def read_file_def node_at_def)
  show "\<forall>c b. c \<noteq> [] \<and> open_error \<phi> c = None \<and> fs w c = Some (File b) \<longrightarrow>
      (\<forall>e. json_load w b = Inl e \<longrightarrow> load_try \<phi> c w = Inl e) \<and>
      (\<forall>v. json_load w b = Inr v \<and> (\<forall>kvs. v \<noteq> JObj kvs) \<longrightarrow>
         load_try \<phi> c w = Inl TypeError) \<and>
      (\<forall>kvs. json_load w b = Inr (JObj kvs) \<longrightarrow>
         (map_of kvs ''hla_fasta_path'' = None \<longrightarrow>
            load_try \<phi> c w = Inl (KeyError ''hla_fasta_path'')) \<and>
         (\<forall>x. map_of kvs ''hla_fasta_path'' = Some x \<and> (\<forall>s. x \<noteq> JStr s) \<longrightarrow>
            load_try \<phi> c w = Inl TypeError) \<and>
         (\<forall>s. map_of kvs ''hla_fasta_path'' = Some (JStr s) \<longrightarrow>
            load_try \<phi> c w = Inr (Path s)))"
  proof (intro allI impI, elim conjE)
    fix c b
    assume False: "c \<noteq> []" and o: "open_error \<phi> c = None" and f: "fs w c = Some (File b)"
    show "(\<forall>e. json_load w b = Inl e \<longrightarrow> load_try \<phi> c w = Inl e) \<and>
      (\<forall>v. json_load w b = Inr v \<and> (\<forall>kvs. v \<noteq> JObj kvs) \<longrightarrow>
         load_try \<phi> c w = Inl TypeError) \<and>
      (\<forall>kvs. json_load w b = Inr (JObj kvs) \<longrightarrow>
         (map_of kvs ''hla_fasta_path'' = None \<longrightarrow>
            load_try \<phi> c w = Inl (KeyError ''hla_fasta_path'')) \<and>
         (\<forall>x. map_of kvs ''hla_fasta_path'' = Some x \<and> (\<forall>s. x \<noteq> JStr s) \<longrightarrow>
            load_try \<phi> c w = Inl TypeError) \<and>
         (\<forall>s. map_of kvs ''hla_fasta_path'' = Some (JStr s) \<longrightarrow>
            load_try \<phi> c w = Inr (Path s)))"
    proof -
      from False o f have rd: "open_read \<phi> c w = Inr b"
        by (simp add: open_read_def read_file_def node_at_def)
      show ?thesis
        by (auto simp: load_try_def rd subscript_def split: json.splits)
    qed
  qed
qed

theorem load_hla_path_errors_witness:
  "load_hla_path no_faults linux_world = (Returned None, print NotSetUp linux_world) \<and>
   load_hla_path no_faults garbled_world =
     (Returned None, print (ErrorLoading JSONDecodeError) garbled_world) \<and>
   load_hla_path no_faults nokey_world =
     (Returned None, print (ErrorLoading (KeyError ''hla_fasta_path'')) nokey_world) \<and>
   load_hla_path no_faults list_world =
     (Returned None, print (ErrorLoading TypeError) list_world) \<and>
   load_hla_path no_faults number_world =
     (Returned None, print (ErrorLoading TypeError) number_world) \<and>
   load_hla_path ascii_stdout linux_world = (Raised UnicodeEncodeError, linux_world)"
proof -
  let ?c = "joinpath test_cache ''config.json''"
  have nf: "home_error no_faults = None" "\<And>p. stat_error no_faults p = None"
           "\<And>p. open_error no_faults p = None" "\<And>m. print_error no_faults m = None"
    by (simp_all add: no_faults_def)
  have af: "home_error ascii_stdout = None" "\<And>p. stat_error ascii_stdout p = None"
           "print_error ascii_stdout NotSetUp = Some UnicodeEncodeError"
    by (simp_all add: ascii_stdout_def no_faults_def)
  have gc: "fst (get_cache_dir linux_world) = test_cache"
           "fst (get_cache_dir garbled_world) = test_cache"
           "fst (get_cache_dir nokey_world) = test_cache"
           "fst (get_cache_dir list_world) = test_cache"
           "fst (get_cache_dir number_world) = test_cache"
    by (simp_all add: get_cache_dir_def garbled_world_def nokey_world_def list_world_def
                      number_world_def downloaded_world_def linux_world_def test_cache_def
                      joinpath_def)
  have ne: "?c \<noteq> []" by simp
  have missing: "fs linux_world ?c = None"
    by (simp add: linux_world_def)
  have garbled: "fs garbled_world ?c = Some (File ''{'')"
                "json_load garbled_world ''{'' = Inl JSONDecodeError"
    by (simp_all add: garbled_world_def downloaded_world_def linux_world_def stub_load_def
                      stub_dump_def test_record_def)
  have there: "fs downloaded_world ?c = Some (File (stub_dump test_record 2))"
    by (simp add: downloaded_world_def)
  have nokey: "fs nokey_world ?c = Some (File (stub_dump test_record 2))"
              "json_load nokey_world (stub_dump test_record 2) =
                 Inr (JObj [(''download_url'', JStr test_url)])"
              "map_of [(''download_url'', JStr test_url)] ''hla_fasta_path'' = None"
    using there by (simp_all add: nokey_world_def)
  have lst: "fs list_world ?c = Some (File (stub_dump test_record 2))"
            "json_load list_world (stub_dump test_record 2) = Inr (JArr [JStr ''hla_fasta_path''])"
            "\<forall>kvs. JArr [JStr ''hla_fasta_path''] \<noteq> JObj kvs"
    using there by (simp_all add: list_world_def)
  have num: "fs number_world ?c = Some (File (stub_dump test_record 2))"
            "json_load number_world (stub_dump test_record 2) =
               Inr (JObj [(''hla_fasta_path'', JNum 5)])"
            "map_of [(''hla_fasta_path'', JNum 5)] ''hla_fasta_path'' = Some (JNum 5)"
            "\<forall>s. JNum 5 \<noteq> JStr s"
    using there by (simp_all add: number_world_def)
  note main = load_hla_path_errors [THEN conjunct2, THEN conjunct2, THEN conjunct2,
      THEN conjunct2, THEN conjunct1, rule_format]
  note tried = load_hla_path_errors [THEN conjunct2, THEN conjunct2, THEN conjunct2,
      THEN conjunct2, THEN conjunct2, THEN conjunct2, THEN conjunct2, rule_format]
  from main [of no_faults linux_world] nf gc missing
  have 1: "load_hla_path no_faults linux_world = (Returned None, print NotSetUp linux_world)"
    by simp
  from tried [of ?c no_faults garbled_world] nf ne garbled
  have "load_try no_faults ?c garbled_world = Inl JSONDecodeError" by blast
  with main [of no_faults garbled_world] nf gc garbled
  have 2: "load_hla_path no_faults garbled_world =
             (Returned None, print (ErrorLoading JSONDecodeError) garbled_world)"
    by simp
  from tried [of ?c no_faults nokey_world] nf ne nokey
  have "load_try no_faults ?c nokey_world = Inl (KeyError ''hla_fasta_path'')" by blast
  with main [of no_faults nokey_world] nf gc nokey
  have 3: "load_hla_path no_faults nokey_world =
             (Returned None, print (ErrorLoading (KeyError ''hla_fasta_path'')) nokey_world)"
    by simp
  from tried [of ?c no_faults list_world] nf ne lst
  have "load_try no_faults ?c list_world = Inl TypeError" by blast
  with main [of no_faults list_world] nf gc lst
  have 4: "load_hla_path no_faults list_world =
             (Returned None, print (ErrorLoading TypeError) list_world)"
    by simp
  from tried [of ?c no_faults number_world] nf ne num
  have "load_try no_faults ?c number_world = Inl TypeError" by blast
  with main [of no_faults number_world] nf gc num
  have 5: "load_hla_path no_faults number_world =
             (Returned None, print (ErrorLoading TypeError) number_world)"
    by simp
  from main [of ascii_stdout linux_world] af gc missing
  have 6: "load_hla_path ascii_stdout linux_world = (Raised UnicodeEncodeError, linux_world)"
    by simp
  from 1 2 3 4 5 6 show ?thesis by blast
qed

text \<open>
  C7 as the specification states it fails. On a machine whose output stream cannot
  encode the cross mark, the loader raises \<^verbatim>\<open>UnicodeEncodeError\<close> where there is no
  config file and where the config file is no JSON, instead of printing and returning
  \<^verbatim>\<open>None\<close>. Where the cache directory may not be searched, \<^verbatim>\<open>config_file.exists()\<close>
  raises the \<^verbatim>\<open>OSError\<close> of \<^verbatim>\<open>stat\<close>.
\<close>

theorem load_hla_path_raises_counterexample:
  "fs linux_world (joinpath (fst (get_cache_dir linux_world)) ''config.json'') = None \<and>
   load_hla_path ascii_stdout linux_world = (Raised UnicodeEncodeError, linux_world) \<and>
   fs garbled_world (joinpath (fst (get_cache_dir garbled_world)) ''config.json'') =
     Some (File ''{'') \<and>
   json_load garbled_world ''{'' = Inl JSONDecodeError \<and>
   load_hla_path ascii_stdout garbled_world = (Raised UnicodeEncodeError, garbled_world) \<and>
   load_hla_path locked_cache downloaded_world = (Raised OSError, downloaded_world)"
  by (simp add: load_defs ascii_stdout_def locked_cache_def no_faults_def garbled_world_def
                downloaded_world_def linux_world_def test_cache_def joinpath_def
                stub_load_def stub_dump_def test_record_def)

section \<open>A failed download\<close>



lemma download_failed_transport:
  assumes mk: "mkdir_parents cache_dir (fs w) = Inr t"
    and fresh: "fs w (joinpath cache_dir ''hla_prot.fasta'') = None"
    and dt: "download_try (joinpath cache_dir ''hla_prot.fasta'')
               (joinpath cache_dir ''config.json'') url
               (w\<lparr>fs := t, console := console w @
                   [Downloading, ShowURL url,
                    Destination (joinpath cache_dir ''hla_prot.fasta'')]\<rparr>)
             = (Inl (RequestException x), w3)"
  shows "\<exists>w'. download_hla_fasta cache_dir url w = (SysExit 1, w') \<and>
              fs w' = t \<and>
              console w' = console w3 @ [DownloadFailed (RequestException x)] \<and>
              requests_log w' = requests_log w @ [url] \<and> same_env w w'"
proof -
  let ?f = "joinpath cache_dir ''hla_prot.fasta''"
  let ?c = "joinpath cache_dir ''config.json''"
  let ?w2 = "w\<lparr>fs := t, console := console w @ [Downloading, ShowURL url, Destination ?f]\<rparr>"
  have tf: "t ?f = None" and tc: "t ?c = fs w ?c"
    using mkdir_parents_child [OF mk] fresh by simp_all
  have f2: "fs ?w2 ?f = None" using tf by simp
  from download_try_Inl [OF dt f2] have inl:
    "\<forall>q. q \<noteq> ?f \<and> q \<noteq> ?c \<longrightarrow> fs w3 q = t q"
    "fs w3 ?f = None \<or> (\<exists>b. fs w3 ?f = Some (File b))"
    "requests_log w3 = requests_log w @ [url]" "same_env ?w2 w3"
    "fs w3 ?c = t ?c"
    by simp_all
  from handle_failure_request [OF inl(2), of x] obtain w' where
    hf: "handle_failure ?f (RequestException x) w3 = (SysExit 1, w')"
    and w': "fs w' = (fs w3)(?f := None)"
      "console w' = console w3 @ [DownloadFailed (RequestException x)]"
      "requests_log w' = requests_log w3" "same_env w3 w'"
    by auto
  have "fs w' q = t q" for q
    using w'(1) inl(1,5) tf by (cases "q = ?f"; cases "q = ?c") auto
  then have fs: "fs w' = t" by (rule ext)
  have env: "same_env w w'"
    using inl(4) w'(4) by (simp add: same_env_def)
  have "download_hla_fasta cache_dir url w = (SysExit 1, w')"
    unfolding download_fresh [OF mk fresh] by (simp add: dt hf)
  with fs w'(2,3) inl(3) env show ?thesis by auto
qed




text \<open>
  C2, as amended. A call that has to download ends in one of three ways. It returns the
  target path, with all received bytes in the target file and the record in the config
  file. Or a \<^verbatim>\<open>RequestException\<close> was raised: it exits with status 1, the target file
  is gone and the config file is as it was. Or another exception leaves the function
  uncaught: then the config file is as it was, or it is empty and the target file holds
  all received bytes (the failure was in writing the config file); nothing is said of a
  partial target file, which this path does not delete. In every case the config file
  changes only once the target file is complete.
\<close>

theorem download_outcomes:
  assumes mk: "mkdir_parents cache_dir (fs w) = Inr t"
    and fresh: "fs w (joinpath cache_dir ''hla_prot.fasta'') = None"
    and run: "download_hla_fasta cache_dir url w = (out, w')"
  shows "((out = Returned (joinpath cache_dir ''hla_prot.fasta'') \<and>
           (\<exists>r. net w url = GetReturns r \<and>
                fs w' (joinpath cache_dir ''hla_prot.fasta'') = Some (File (concat (chunks r))) \<and>
                fs w' (joinpath cache_dir ''config.json'') =
                  Some (File (json_dump w
                    (config_record (joinpath cache_dir ''hla_prot.fasta'') url
                       (of_nat (length (concat (chunks r))) / 1048576)) 2))))
          \<or> (out = SysExit 1 \<and>
              fs w' (joinpath cache_dir ''hla_prot.fasta'') = None \<and>
              fs w' (joinpath cache_dir ''config.json'') =
                fs w (joinpath cache_dir ''config.json''))
          \<or> (\<exists>e. out = Raised e \<and> (\<forall>x. e \<noteq> RequestException x) \<and>
                 (fs w' (joinpath cache_dir ''config.json'') =
                    fs w (joinpath cache_dir ''config.json'') \<or>
                  fs w' (joinpath cache_dir ''config.json'') = Some (File []) \<and>
                  (\<exists>r. net w url = GetReturns r \<and>
                       fs w' (joinpath cache_dir ''hla_prot.fasta'') =
                         Some (File (concat (chunks r)))))))
         \<and> (fs w' (joinpath cache_dir ''config.json'') \<noteq>
               fs w (joinpath cache_dir ''config.json'') \<longrightarrow>
             (\<exists>r. net w url = GetReturns r \<and>
                  fs w' (joinpath cache_dir ''hla_prot.fasta'') =
                    Some (File (concat (chunks r)))))"
proof -
  let ?f = "joinpath cache_dir ''hla_prot.fasta''"
  let ?c = "joinpath cache_dir ''config.json''"
  let ?w2 = "w\<lparr>fs := t, console := console w @ [Downloading, ShowURL url, Destination ?f]\<rparr>"
  have tf: "t ?f = None" and tc: "t ?c = fs w ?c"
    using mkdir_parents_child [OF mk] fresh by simp_all
  have f2: "fs ?w2 ?f = None" using tf by simp
  show ?thesis
  proof (cases "download_try ?f ?c url ?w2")
    case (Pair res w3)
    show ?thesis
    proof (cases res)
      case (Inr p)
      with Pair have dt: "download_try ?f ?c url ?w2 = (Inr p, w3)" by simp
      from run have ow: "out = Returned p" "w' = w3"
        unfolding download_fresh [OF mk fresh] by (simp_all add: dt)
      from download_try_Inr [OF dt f2] obtain r :: response where
        "net ?w2 url = GetReturns r" "p = ?f"
        "fs w3 = (fs ?w2)(?f \<mapsto> File (concat (chunks r)),
                          ?c \<mapsto> File (json_dump ?w2 (config_record ?f url
                                   (of_nat (length (concat (chunks r))) / 1048576)) 2))"
        by auto
      then have "net w url = GetReturns r \<and>
                fs w' ?f = Some (File (concat (chunks r))) \<and>
                fs w' ?c = Some (File (json_dump w (config_record ?f url
                       (of_nat (length (concat (chunks r))) / 1048576)) 2))"
        and "out = Returned ?f"
        using ow by simp_all
      then show ?thesis by blast
    next
      case (Inl e)
      with Pair have dt: "download_try ?f ?c url ?w2 = (Inl e, w3)" by simp
      show ?thesis
      proof (cases "\<exists>x. e = RequestException x")
        case True
        then obtain x where e: "e = RequestException x" by blast
        from download_failed_transport [OF mk fresh dt [unfolded e]] run
        have "out = SysExit 1" "fs w' = t" by auto
        with tf tc show ?thesis by simp
      next
        case False
        then have ne: "\<forall>x. e \<noteq> RequestException x" by blast
        from run have ow: "out = Raised e" "w' = w3"
          unfolding download_fresh [OF mk fresh]
          by (simp_all add: dt handle_failure_other [OF ne])
        from download_try_Inl [OF dt f2] have
          "fs w3 ?c = fs ?w2 ?c \<or>
             (fs w3 ?c = Some (File []) \<and>
              (\<exists>r. net ?w2 url = GetReturns r \<and> fs w3 ?f = Some (File (concat (chunks r)))))"
          by simp
        then have "fs w' ?c = fs w ?c \<or>
             (fs w' ?c = Some (File []) \<and>
              (\<exists>r. net w url = GetReturns r \<and> fs w' ?f = Some (File (concat (chunks r)))))"
          using ow tc by simp
        with ow ne show ?thesis by blast
      qed
    qed
  qed
qed

theorem download_outcomes_witness:
  "fs downloaded_world (joinpath test_cache ''config.json'')
     \<noteq> fs linux_world (joinpath test_cache ''config.json'') \<and>
   (\<exists>r. net linux_world test_url = GetReturns r \<and>
        fs downloaded_world (joinpath test_cache ''hla_prot.fasta'') =
          Some (File (concat (chunks r))))"
proof -
  have mk: "mkdir_parents test_cache (fs linux_world) = Inr test_dirs"
    using mkdir_test by (simp add: linux_world_def)
  have fresh: "fs linux_world (joinpath test_cache ''hla_prot.fasta'') = None"
    by (simp add: linux_world_def)
  have changed: "fs downloaded_world (joinpath test_cache ''config.json'')
                   \<noteq> fs linux_world (joinpath test_cache ''config.json'')"
    by (simp add: downloaded_world_def linux_world_def)
  from download_outcomes [OF mk fresh run_linux] changed show ?thesis
    by blast
qed

text \<open>
  C2 as the specification states it fails: on a disk with room for three bytes the second
  chunk cannot be written, the \<^verbatim>\<open>OSError\<close> is not caught, and the first chunk stays
  behind as the target file.
\<close>

theorem disk_full_counterexample:
  "fst (download_hla_fasta test_cache test_url full_disk_world) = Raised OSError \<and>
   fs (snd (download_hla_fasta test_cache test_url full_disk_world))
      (joinpath test_cache ''hla_prot.fasta'') = Some (File ''>A'') \<and>
   fs (snd (download_hla_fasta test_cache test_url full_disk_world))
      (joinpath test_cache ''config.json'') = None"
proof -
  have mk: "mkdir_parents test_cache (fs full_disk_world) = Inr test_dirs"
    using mkdir_test by (simp add: full_disk_world_def linux_world_def)
  have fresh: "fs full_disk_world (joinpath test_cache ''hla_prot.fasta'') = None"
    by (simp add: full_disk_world_def linux_world_def)
  show ?thesis
    unfolding download_fresh [OF mk fresh]
    by (simp add: run_defs test_defs full_disk_world_def)
qed

end
